theory Spec2Isabelle
  imports Main
begin

section \<open>Python string primitives\<close>

text \<open>
  Strings are lists of 8-bit characters. ASCII text is modelled exactly. A code point
  beyond ASCII is the sequence of its UTF-8 bytes, none of which is whitespace, a line
  break, a cased letter or a word character for the functions below, whereas Python
  treats some code points beyond ASCII as such (the no-break space is whitespace, an
  accented capital has a lowercase form and is a word character). The functions below
  therefore agree with Python's on every ASCII string; a property that depends on
  trimming, lowercasing or word boundaries of the input is stated for ASCII input.
\<close>

definition ascii :: "string \<Rightarrow> bool" where
  "ascii s = list_all (\<lambda>c. \<not> digit7 c) s"

definition py_isspace :: "char \<Rightarrow> bool" where
  "py_isspace c = (c \<in> set [CHR 0x09, CHR 0x0A, CHR 0x0B, CHR 0x0C, CHR 0x0D,
                              CHR 0x1C, CHR 0x1D, CHR 0x1E, CHR 0x1F, CHR '' ''])"

definition py_lstrip :: "string \<Rightarrow> string" where
  "py_lstrip s = dropWhile py_isspace s"

definition py_rstrip :: "string \<Rightarrow> string" where
  "py_rstrip s = rev (dropWhile py_isspace (rev s))"

definition py_strip :: "string \<Rightarrow> string" where
  "py_strip s = py_rstrip (py_lstrip s)"

definition lower_char :: "char \<Rightarrow> char" where
  "lower_char c = (case map_of (zip ''ABCDEFGHIJKLMNOPQRSTUVWXYZ'' ''abcdefghijklmnopqrstuvwxyz'') c of
                     Some d \<Rightarrow> d | None \<Rightarrow> c)"

definition py_lower :: "string \<Rightarrow> string" where
  "py_lower s = map lower_char s"

definition py_startswith :: "string \<Rightarrow> string \<Rightarrow> bool" where
  "py_startswith s p = (take (length p) s = p)"

definition py_endswith :: "string \<Rightarrow> string \<Rightarrow> bool" where
  "py_endswith s p = (length p \<le> length s \<and> drop (length s - length p) s = p)"

text \<open>\<open>s.rfind(c)\<close> for a one-character needle: the last index, \<open>None\<close> for Python's -1.\<close>

fun py_rfind :: "string \<Rightarrow> char \<Rightarrow> nat option" where
  "py_rfind [] c = None"
| "py_rfind (x # xs) c =
     (case py_rfind xs c of
        Some i \<Rightarrow> Some (Suc i)
      | None \<Rightarrow> (if x = c then Some 0 else None))"

text \<open>The slice \<open>s[i:j]\<close> for indices within the string.\<close>

definition py_slice :: "string \<Rightarrow> nat \<Rightarrow> nat \<Rightarrow> string" where
  "py_slice s i j = take (j - i) (drop i s)"

text \<open>\<open>s.split(c)\<close> for a one-character separator; the result is never empty.\<close>

fun py_split :: "string \<Rightarrow> char \<Rightarrow> string list" where
  "py_split [] c = [[]]"
| "py_split (x # xs) c =
     (if x = c then [] # py_split xs c
      else (case py_split xs c of
              p # ps \<Rightarrow> (x # p) # ps
            | [] \<Rightarrow> [[x]]))"

text \<open>\<open>s.replace(a, b)\<close> for one-character \<open>a\<close> and \<open>b\<close>.\<close>

definition py_replace :: "string \<Rightarrow> char \<Rightarrow> char \<Rightarrow> string" where
  "py_replace s a b = map (\<lambda>c. if c = a then b else c) s"

text \<open>\<open>p in s\<close> for strings: \<open>p\<close> occurs as a contiguous substring.\<close>

fun py_contains :: "string \<Rightarrow> string \<Rightarrow> bool" where
  "py_contains [] p = (p = [])"
| "py_contains (x # xs) p = (py_startswith (x # xs) p \<or> py_contains xs p)"

fun py_join :: "string \<Rightarrow> string list \<Rightarrow> string" where
  "py_join sep [] = []"
| "py_join sep [x] = x"
| "py_join sep (x # y # ys) = x @ sep @ py_join sep (y # ys)"

section \<open>Address utilities\<close>

definition normalize_vip_address :: "string \<Rightarrow> string" where
  "normalize_vip_address v =
     (let normalized = py_lower (py_strip v) in
      if normalized = [] then []
      else
        let normalized = (if py_startswith normalized ''mailto:''
                          then drop (length ''mailto:'') normalized else normalized) in
        (case (py_rfind normalized CHR ''<'', py_rfind normalized CHR ''>'') of
           (Some lt, Some gt) \<Rightarrow>
             if gt > lt then py_strip (py_slice normalized (lt + 1) gt) else normalized
         | _ \<Rightarrow> normalized))"

text \<open>Auxiliary predicates used to state when normalisation is a fixed point.\<close>

definition lowercase :: "string \<Rightarrow> bool" where
  "lowercase s = (\<forall>c\<in>set s. lower_char c = c)"

definition has_bracket_pair :: "string \<Rightarrow> bool" where
  "has_bracket_pair s =
     (case (py_rfind s CHR ''<'', py_rfind s CHR ''>'') of
        (Some lt, Some gt) \<Rightarrow> gt > lt | _ \<Rightarrow> False)"


subsection \<open>Splitting address lists\<close>

text \<open>
  \<open>split_address_values\<close>: the argument is \<open>None\<close> or a list of raw strings. The two
  nested \<open>for\<close> loops append to the list \<open>normalized\<close>, which is the accumulator here.
\<close>

fun split_address_parts :: "string list \<Rightarrow> string list \<Rightarrow> string list" where
  "split_address_parts [] normalized = normalized"
| "split_address_parts (part # parts) normalized =
     (let part = normalize_vip_address part in
      if part \<noteq> [] then split_address_parts parts (normalized @ [part])
      else split_address_parts parts normalized)"

fun split_address_raws :: "string list \<Rightarrow> string list \<Rightarrow> string list" where
  "split_address_raws [] normalized = normalized"
| "split_address_raws (raw # raws) normalized =
     (if raw = [] then split_address_raws raws normalized
      else split_address_raws raws (split_address_parts (py_split raw CHR '','') normalized))"

definition split_address_values :: "string list option \<Rightarrow> string list" where
  "split_address_values values =
     (case values of
        None \<Rightarrow> []
      | Some vs \<Rightarrow> if vs = [] then [] else split_address_raws vs [])"

text \<open>
  The splitter as the specification words it: split every element on comma, semicolon
  and newline, normalise every piece, drop empty results, and keep the first occurrence
  of every address.
\<close>

fun dedupe_first_seen :: "string list \<Rightarrow> string list \<Rightarrow> string list" where
  "dedupe_first_seen [] seen = []"
| "dedupe_first_seen (x # xs) seen =
     (if x \<in> set seen then dedupe_first_seen xs seen
      else x # dedupe_first_seen xs (x # seen))"

definition spec_split_pieces :: "string \<Rightarrow> string list" where
  "spec_split_pieces raw =
     py_split (py_replace (py_replace raw CHR '';'' CHR '','') CHR 0x0A CHR '','') CHR '',''"

definition spec_split_list :: "string list \<Rightarrow> string list" where
  "spec_split_list vs =
     dedupe_first_seen
       (filter (\<lambda>p. p \<noteq> []) (map normalize_vip_address (concat (map spec_split_pieces vs)))) []"

text \<open>What the splitter computes: comma is the only separator and duplicates stay.\<close>

definition comma_split_normalized :: "string list \<Rightarrow> string list" where
  "comma_split_normalized vs =
     concat (map (\<lambda>raw. filter (\<lambda>p. p \<noteq> [])
                          (map normalize_vip_address (py_split raw CHR '',''))) vs)"

subsection \<open>Sender identities\<close>

text \<open>
  \<open>mail.sender_emails\<close> of the configuration is absent, one delimited string, or a
  list of strings. The loops add to a set.
\<close>

datatype sender_emails_setting =
  SenderEmailsAbsent | SenderEmailsStr string | SenderEmailsList "string list"

definition add_identities :: "string list \<Rightarrow> string set \<Rightarrow> string set" where
  "add_identities raw_values identities =
     fold (\<lambda>v ids. let normalized = normalize_vip_address v in
                    if normalized \<noteq> [] then insert normalized ids else ids)
          raw_values identities"

definition delimited_parts :: "string \<Rightarrow> string list" where
  "delimited_parts s =
     py_split (py_replace (py_replace s CHR '';'' CHR '','') CHR 0x0A CHR '','') CHR '',''"

record person =
  person_name :: string
  person_email :: string

text \<open>
  A message as the mail store returns it. A missing or null field is the empty string
  or the empty list. An entry of \<open>to\<close> or \<open>cc\<close> that is not an object is \<open>None\<close>.
  \<open>bodyValues\<close> maps part ids to text in the order of the object's keys; \<open>textBody\<close>
  lists the part ids of the text parts (empty for a part without id).
\<close>

record email =
  email_id :: string
  email_from :: "person list"
  email_to :: "person option list"
  email_cc :: "person option list"
  email_subject :: string
  email_preview :: string
  email_bodyValues :: "(string \<times> string) list"
  email_textBody :: "string list"
  email_receivedAt :: string

text \<open>The parts of the configuration file the triage cycle reads.\<close>

record config =
  mail_sender_emails :: sender_emails_setting
  triage_urgent_keywords :: "string list"
  triage_vip_frequency_threshold :: "int option"
  drafting_signature :: string

definition configured_sender_identities :: "config \<Rightarrow> string set" where
  "configured_sender_identities cfg =
     (case mail_sender_emails cfg of
        SenderEmailsStr s \<Rightarrow> add_identities (delimited_parts s) {}
      | SenderEmailsList vs \<Rightarrow>
          fold (\<lambda>v ids. add_identities (delimited_parts v) ids) vs {}
      | SenderEmailsAbsent \<Rightarrow> {})"

fun targets_loop :: "person option list \<Rightarrow> string set \<Rightarrow> bool" where
  "targets_loop [] sender_identities = False"
| "targets_loop (None # recipients) sender_identities = targets_loop recipients sender_identities"
| "targets_loop (Some p # recipients) sender_identities =
     (let recipient_email = normalize_vip_address (person_email p) in
      if recipient_email \<noteq> [] \<and> recipient_email \<in> sender_identities then True
      else targets_loop recipients sender_identities)"

definition email_targets_sender_identity :: "email \<Rightarrow> string set \<Rightarrow> bool \<Rightarrow> bool" where
  "email_targets_sender_identity e sender_identities include_cc =
     (if sender_identities = {} then False
      else
        let recipients = email_to e @ (if include_cc then email_cc e else [])
        in targets_loop recipients sender_identities)"

section \<open>State store\<close>

text \<open>
  The four tables of the embedded database, each a list of rows in insertion order.
  \<open>email_id\<close> and \<open>email\<close> are the primary keys. A NULL text column is \<open>None\<close>.
\<close>

record state_row =
  st_email_id :: string
  st_subject :: string
  st_sender :: string
  st_sender_email :: string
  st_received_at :: string
  st_priority :: string
  st_actionable :: bool
  st_reason :: string
  st_summary :: string
  st_reply_text :: string
  st_drafted :: bool
  st_draft_id :: "string option"
  st_status :: string
  st_error :: string
  st_first_seen_at :: string
  st_last_seen_at :: string
  st_updated_at :: string

record vip_row =
  vip_email :: string
  vip_added_at :: string
  vip_source :: string
  vip_note :: "string option"

record blocked_row =
  blocked_email :: string
  blocked_added_at :: string
  blocked_source :: string

text \<open>
  The cycle summary and its per-message entries. The entry of a skipped message has no
  \<open>actionable\<close>, \<open>source\<close>, \<open>sender_email\<close> and \<open>auto_promoted_vip\<close> keys
  (\<open>None\<close>).
\<close>

record summary_entry =
  entry_email_id :: string
  entry_priority :: string
  entry_actionable :: "bool option"
  entry_status :: string
  entry_draft_id :: "string option"
  entry_reason :: string
  entry_source :: "string option"
  entry_sender_email :: "string option"
  entry_auto_promoted_vip :: "bool option"

record cycle_summary =
  summary_run_at :: string
  summary_apply_mode :: bool
  emails_seen :: nat
  triaged_count :: nat
  archived_count :: nat
  drafted_count :: nat
  skipped_count :: nat
  error_count :: nat
  summary_emails :: "summary_entry list"

record run_row =
  run_at :: string
  run_mode :: string
  run_emails_seen :: nat
  run_triaged_count :: nat
  run_drafted_count :: nat
  run_skipped_count :: nat
  run_error_count :: nat
  run_details :: cycle_summary

record db =
  triage_state :: "state_row list"
  triage_runs :: "run_row list"
  vip_senders :: "vip_row list"
  draft_blocked_senders :: "blocked_row list"

definition VIP_SOURCE_CONFIG :: string where "VIP_SOURCE_CONFIG = ''config''"
definition VIP_SOURCE_MANUAL :: string where "VIP_SOURCE_MANUAL = ''manual''"
definition VIP_SOURCE_AUTO :: string where "VIP_SOURCE_AUTO = ''auto_frequency''"

definition get_vip_senders :: "db \<Rightarrow> string set" where
  "get_vip_senders conn =
     set (map (\<lambda>row. py_lower (py_strip (vip_email row)))
              (filter (\<lambda>row. vip_email row \<noteq> []) (vip_senders conn)))"

definition add_vip_sender :: "db \<Rightarrow> string \<Rightarrow> string \<Rightarrow> string \<Rightarrow> db \<times> bool" where
  "add_vip_sender conn email_arg source now =
     (let normalized = normalize_vip_address email_arg in
      if normalized = [] \<or> \<not> py_contains normalized ''@'' then (conn, False)
      else if \<exists>row \<in> set (vip_senders conn). vip_email row = normalized then (conn, False)
      else (conn\<lparr>vip_senders := vip_senders conn @
                    [\<lparr>vip_email = normalized, vip_added_at = now, vip_source = source,
                      vip_note = None\<rparr>]\<rparr>, True))"

definition remove_vip_sender :: "db \<Rightarrow> string \<Rightarrow> db \<times> bool" where
  "remove_vip_sender conn email_arg =
     (let normalized = normalize_vip_address email_arg in
      if normalized = [] then (conn, False)
      else (conn\<lparr>vip_senders := filter (\<lambda>row. vip_email row \<noteq> normalized) (vip_senders conn)\<rparr>,
            \<exists>row \<in> set (vip_senders conn). vip_email row = normalized))"

definition get_draft_blocked_senders :: "db \<Rightarrow> string set" where
  "get_draft_blocked_senders conn =
     set (map (\<lambda>row. py_lower (py_strip (blocked_email row)))
              (filter (\<lambda>row. blocked_email row \<noteq> []) (draft_blocked_senders conn)))"

definition add_draft_blocked_sender :: "db \<Rightarrow> string \<Rightarrow> string \<Rightarrow> string \<Rightarrow> db \<times> bool" where
  "add_draft_blocked_sender conn email_arg source now =
     (let normalized = normalize_vip_address email_arg in
      if normalized = [] \<or> \<not> py_contains normalized ''@'' then (conn, False)
      else if \<exists>row \<in> set (draft_blocked_senders conn). blocked_email row = normalized
      then (conn, False)
      else (conn\<lparr>draft_blocked_senders := draft_blocked_senders conn @
                    [\<lparr>blocked_email = normalized, blocked_added_at = now,
                      blocked_source = source\<rparr>]\<rparr>, True))"

definition get_vip_frequency_threshold :: "config \<Rightarrow> int" where
  "get_vip_frequency_threshold cfg =
     (case triage_vip_frequency_threshold cfg of
        None \<Rightarrow> 0
      | Some threshold \<Rightarrow> max 0 threshold)"

definition count_high_priority_emails_for_sender :: "db \<Rightarrow> string \<Rightarrow> nat" where
  "count_high_priority_emails_for_sender state_conn sender_email =
     length (filter (\<lambda>row. st_sender_email row = sender_email \<and> st_priority row = ''high'')
                    (triage_state state_conn))"


section \<open>Priorities\<close>

definition PRIORITY_ORDER :: "(string \<times> nat) list" where
  "PRIORITY_ORDER = [(''low'', 1), (''medium'', 2), (''high'', 3)]"

definition VALID_PRIORITIES :: "string set" where
  "VALID_PRIORITIES = set (map fst PRIORITY_ORDER)"

section \<open>Validation of the assistant's answer\<close>

text \<open>
  The values a parsed JSON object holds under a key. A missing key reads as \<open>JNull\<close>
  (\<open>dict.get\<close> returns \<open>None\<close>). \<open>JOther\<close> is any other value (a number with a
  fraction, an array, an object), given by the text \<open>str\<close> renders it as and by its
  truth value.
\<close>

datatype jval = JNull | JBool bool | JInt int | JStr string | JOther string bool

fun py_truthy :: "jval \<Rightarrow> bool" where
  "py_truthy JNull = False"
| "py_truthy (JBool b) = b"
| "py_truthy (JInt n) = (n \<noteq> 0)"
| "py_truthy (JStr s) = (s \<noteq> [])"
| "py_truthy (JOther s t) = t"

fun nat_digits :: "nat \<Rightarrow> string" where
  "nat_digits n =
     (if n < 10 then [''0123456789'' ! n]
      else nat_digits (n div 10) @ [''0123456789'' ! (n mod 10)])"

fun py_str :: "jval \<Rightarrow> string" where
  "py_str JNull = ''None''"
| "py_str (JBool b) = (if b then ''True'' else ''False'')"
| "py_str (JInt n) = (if n < 0 then ''-'' @ nat_digits (nat (- n)) else nat_digits (nat n))"
| "py_str (JStr s) = s"
| "py_str (JOther s t) = s"

text \<open>\<open>str(v or "")\<close>\<close>

definition py_str_or_empty :: "jval \<Rightarrow> string" where
  "py_str_or_empty v = (if py_truthy v then py_str v else [])"

text \<open>\<open>s or d\<close> for strings\<close>

definition py_or :: "string \<Rightarrow> string \<Rightarrow> string" where
  "py_or s d = (if s \<noteq> [] then s else d)"

record codex_parsed =
  parsed_priority :: jval
  parsed_actionable :: jval
  parsed_reason :: jval
  parsed_summary :: jval
  parsed_reply_text :: jval

record codex_result =
  res_priority :: string
  res_actionable :: bool
  res_reason :: string
  res_summary :: string
  res_reply_text :: string
  res_source :: string

text \<open>
  Exceptions are values; the string is the exception's message. Only the message of
  an assistant failure is read later (it is copied into the stored reason).
\<close>

datatype error = CodexClientError string | JMAPError string

definition error_message :: "error \<Rightarrow> string" where
  "error_message e = (case e of CodexClientError m \<Rightarrow> m | JMAPError m \<Rightarrow> m)"

text \<open>
  \<open>repr\<close> of a string: double quotes when the string has a single quote and no
  double quote, single quotes otherwise; the backslash, the chosen quote, tab, line
  feed and carriage return are escaped, and any other control character is written
  \<open>\xhh\<close>.
\<close>

definition hex2 :: "char \<Rightarrow> string" where
  "hex2 c = [''0123456789abcdef'' ! (of_char c div 16), ''0123456789abcdef'' ! (of_char c mod 16)]"

definition py_repr_char :: "char \<Rightarrow> char \<Rightarrow> string" where
  "py_repr_char q c =
     (if c = CHR 0x5C then [CHR 0x5C, CHR 0x5C]
      else if c = q then [CHR 0x5C, q]
      else if c = CHR 0x09 then [CHR 0x5C, CHR ''t'']
      else if c = CHR 0x0A then [CHR 0x5C, CHR ''n'']
      else if c = CHR 0x0D then [CHR 0x5C, CHR ''r'']
      else if (of_char c :: nat) < 32 \<or> c = CHR 0x7F then [CHR 0x5C, CHR ''x''] @ hex2 c
      else [c])"

definition py_repr :: "string \<Rightarrow> string" where
  "py_repr s =
     (let q = (if CHR 0x27 \<in> set s \<and> CHR 0x22 \<notin> set s then CHR 0x22 else CHR 0x27)
      in [q] @ concat (map (py_repr_char q) s) @ [q])"

definition normalize_codex_triage_result :: "codex_parsed \<Rightarrow> string \<Rightarrow> error + codex_result" where
  "normalize_codex_triage_result parsed fallback_reply =
     (let priority = py_lower (py_strip (py_str_or_empty (parsed_priority parsed))) in
      if priority \<notin> VALID_PRIORITIES
      then Inl (CodexClientError (''Invalid priority from Codex: '' @ py_repr priority))
      else
        let actionable =
              (case parsed_actionable parsed of
                 JBool b \<Rightarrow> b
               | actionable_raw \<Rightarrow>
                   py_lower (py_strip (py_str actionable_raw)) \<in> {''1'', ''true'', ''yes'', ''y''});
            reason = py_or (py_strip (py_str_or_empty (parsed_reason parsed))) ''Codex triage'';
            summary = py_or (py_strip (py_str_or_empty (parsed_summary parsed)))
                        (''Email triaged by Codex ('' @ priority @ '')'');
            reply_text = py_or (py_strip (py_str_or_empty (parsed_reply_text parsed))) fallback_reply
        in Inr \<lparr>res_priority = priority, res_actionable = actionable, res_reason = reason,
                 res_summary = summary, res_reply_text = reply_text, res_source = ''codex''\<rparr>)"

text \<open>An answer whose five fields render as ASCII text.\<close>

definition ascii_parsed :: "codex_parsed \<Rightarrow> bool" where
  "ascii_parsed parsed =
     (ascii (py_str (parsed_priority parsed)) \<and>
      ascii (py_str (parsed_actionable parsed)) \<and>
      ascii (py_str (parsed_reason parsed)) \<and>
      ascii (py_str (parsed_summary parsed)) \<and>
      ascii (py_str (parsed_reply_text parsed)))"

text \<open>A field of the answer is blank when it is missing, null, empty or only whitespace.\<close>

definition blank :: "jval \<Rightarrow> bool" where
  "blank v = (py_strip (py_str_or_empty v) = [])"

section \<open>Reply composer\<close>

definition py_linebreak :: "char \<Rightarrow> bool" where
  "py_linebreak c = (c \<in> set [CHR 0x0A, CHR 0x0D, CHR 0x0B, CHR 0x0C, CHR 0x1C, CHR 0x1D, CHR 0x1E])"

text \<open>
  \<open>str.splitlines()\<close>: \<open>cur\<close> is the current line, reversed. A carriage return followed
  by a line feed is one break; a final line break opens no further line.
\<close>

fun splitlines_from :: "string \<Rightarrow> string \<Rightarrow> string list" where
  "splitlines_from [] cur = (if cur = [] then [] else [rev cur])"
| "splitlines_from [c] cur = (if py_linebreak c then [rev cur] else [rev (c # cur)])"
| "splitlines_from (c # d # cs) cur =
     (if c = CHR 0x0D \<and> d = CHR 0x0A then rev cur # splitlines_from cs []
      else if py_linebreak c then rev cur # splitlines_from (d # cs) []
      else splitlines_from (d # cs) (c # cur))"

definition py_splitlines :: "string \<Rightarrow> string list" where
  "py_splitlines s = splitlines_from s []"

definition signature_markers :: "string list" where
  "signature_markers =
     [''regards'', ''best'', ''sincerely'', ''thanks'', ''thank you'', ''cheers'',
      ''best regards'', ''kind regards'', ''with appreciation'', ''sent from'',
      ''best,'', ''regards,'', ''sincerely,'', ''thanks,'', ''thank you,'', ''cheers,'']"

text \<open>
  The first loop of \<open>_strip_trailing_signature\<close>, \<open>idx\<close> running from the last line
  down to the first: the argument \<open>Suc idx\<close> stands for the index \<open>idx\<close> that is visited.
  \<open>None\<close> means the loop ended without returning.
\<close>

fun separator_loop :: "string list \<Rightarrow> nat \<Rightarrow> string option" where
  "separator_loop lines 0 = None"
| "separator_loop lines (Suc idx) =
     (let candidate = py_strip (lines ! idx) in
      if candidate = [] then separator_loop lines idx
      else if candidate = ''--'' then Some (py_rstrip (py_join [CHR 0x0A] (take idx lines)))
      else separator_loop lines idx)"

text \<open>The \<open>while\<close> loop that walks up over the non-blank lines above a marker line.\<close>

fun walk_up :: "string list \<Rightarrow> nat \<Rightarrow> nat" where
  "walk_up lines 0 = 0"
| "walk_up lines (Suc j) = (if py_strip (lines ! j) \<noteq> [] then walk_up lines j else Suc j)"

fun marker_loop :: "string list \<Rightarrow> nat \<Rightarrow> string option" where
  "marker_loop lines 0 = None"
| "marker_loop lines (Suc idx) =
     (let lower = py_lower (py_strip (lines ! idx)) in
      if \<exists>marker \<in> set signature_markers. py_startswith lower marker
      then Some (py_rstrip (py_join [CHR 0x0A] (take (walk_up lines idx) lines)))
      else marker_loop lines idx)"

definition strip_trailing_signature :: "string \<Rightarrow> string" where
  "strip_trailing_signature text =
     (let lines = py_splitlines text in
      if lines = [] then text
      else (case separator_loop lines (length lines) of
              Some r \<Rightarrow> r
            | None \<Rightarrow> (case marker_loop lines (length lines) of
                         Some r \<Rightarrow> r
                       | None \<Rightarrow> text)))"

definition append_drafting_signature :: "string \<Rightarrow> config \<Rightarrow> string" where
  "append_drafting_signature reply_text cfg =
     (let signature = py_strip (drafting_signature cfg) in
      if signature = [] then reply_text
      else
        let normalized_reply = py_rstrip reply_text in
        if normalized_reply = [] then signature
        else
          let normalized_signature = py_strip signature;
              body_without_signature = strip_trailing_signature normalized_reply in
          if py_endswith body_without_signature normalized_signature then body_without_signature
          else if body_without_signature = [] then normalized_signature
          else py_rstrip body_without_signature @ [CHR 0x0A, CHR 0x0A] @ normalized_signature)"

text \<open>
  The typographic apostrophe of the reply templates (U+2019) as its three UTF-8 bytes,
  and the double quote.
\<close>

definition apostrophe :: string where
  "apostrophe = [CHR 0xE2, CHR 0x80, CHR 0x99]"

definition dquote :: string where
  "dquote = [CHR 0x22]"

definition compose_auto_reply :: "email \<Rightarrow> string \<Rightarrow> config \<Rightarrow> string" where
  "compose_auto_reply e priority cfg =
     (let subject = py_strip (py_or (email_subject e) ''your message'');
          first_line =
            (if priority = ''high''
             then ''Thanks for your email about '' @ dquote @ subject @ dquote @
                  ''. I received this and I'' @ apostrophe @ ''m prioritizing it now.''
             else if priority = ''medium''
             then ''Thanks for the note about '' @ dquote @ subject @ dquote @
                  ''. I received it and will review it shortly.''
             else ''Thanks for sharing this update about '' @ dquote @ subject @ dquote @ ''.'');
          second_line =
            (if priority = ''high''
             then ''I'' @ apostrophe @ ''ll follow up shortly with a full response.''
             else if priority = ''medium''
             then ''I'' @ apostrophe @ ''ll send a full response after I'' @ apostrophe @
                  ''ve gone through the details.''
             else ''I'' @ apostrophe @
                  ''ve received it and will follow up if anything is needed from my side.'');
          body = first_line @ [CHR 0x0A, CHR 0x0A] @ second_line
      in append_drafting_signature body cfg)"

text \<open>
  The reply the specification describes for priority \<open>high\<close>: the two template lines
  separated by a blank line, then a blank line and the configured signature. The
  apostrophes are the typographic ones of the source's templates.
\<close>

definition spec_high_reply :: "string \<Rightarrow> string \<Rightarrow> string" where
  "spec_high_reply subject signature =
     ''Thanks for your email about '' @ dquote @ subject @ dquote @
     ''. I received this and I'' @ apostrophe @ ''m prioritizing it now.'' @
     [CHR 0x0A, CHR 0x0A] @
     ''I'' @ apostrophe @ ''ll follow up shortly with a full response.'' @
     [CHR 0x0A, CHR 0x0A] @ signature"


section \<open>Rule classifier\<close>

text \<open>
  Each pattern of the source is a literal phrase between two word boundaries,
  \<open>\bphrase\b\<close>. The lists hold the phrases.
\<close>

definition ACTION_PATTERNS :: "string list" where
  "ACTION_PATTERNS =
     [''please'', ''can you'', ''could you'', ''would you'', ''need you'',
      ''action required'', ''let me know'', ''follow up'', ''deadline'', ''asap'', ''eod'']"

definition LOW_SIGNAL_PATTERNS :: "string list" where
  "LOW_SIGNAL_PATTERNS = [''newsletter'', ''digest'', ''notification'', ''promo'', ''marketing'']"

text \<open>The word characters of \<open>\b\<close> on ASCII text: letters, digits and the underscore.\<close>

definition py_word_char :: "char \<Rightarrow> bool" where
  "py_word_char c =
     (c \<in> set ''abcdefghijklmnopqrstuvwxyzABCDEFGHIJKLMNOPQRSTUVWXYZ0123456789_'')"

text \<open>
  \<open>re.search(r"\bphrase\b", text)\<close> for a phrase that begins and ends with a word
  character: the phrase occurs at a position where the character before it (\<open>prev\<close>,
  \<open>None\<close> at the start of the text) and the character after it, if any, are not word
  characters.
\<close>

fun word_search_from :: "string \<Rightarrow> char option \<Rightarrow> string \<Rightarrow> bool" where
  "word_search_from phrase prev [] = False"
| "word_search_from phrase prev (c # cs) =
     ((py_startswith (c # cs) phrase \<and>
       (case prev of None \<Rightarrow> True | Some b \<Rightarrow> \<not> py_word_char b) \<and>
       (case drop (length phrase) (c # cs) of [] \<Rightarrow> True | a # _ \<Rightarrow> \<not> py_word_char a))
      \<or> word_search_from phrase (Some c) cs)"

definition re_search_word :: "string \<Rightarrow> string \<Rightarrow> bool" where
  "re_search_word phrase text = word_search_from phrase None text"

definition format_address :: "person \<Rightarrow> string" where
  "format_address p =
     (let name = py_strip (person_name p); addr = py_strip (person_email p) in
      if name \<noteq> [] \<and> addr \<noteq> [] then name @ '' <'' @ addr @ ''>''
      else py_or addr name)"

definition extract_text_content :: "email \<Rightarrow> string" where
  "extract_text_content e =
     (let chunks =
            filter (\<lambda>v. v \<noteq> [])
              (map (\<lambda>part_id. case map_of (email_bodyValues e) part_id of
                                 Some v \<Rightarrow> v | None \<Rightarrow> [])
                   (filter (\<lambda>part_id. part_id \<noteq> []) (email_textBody e)))
      in if chunks \<noteq> [] then py_strip (py_join [CHR 0x0A, CHR 0x0A] chunks)
         else (case email_bodyValues e of
                 (_, v) # _ \<Rightarrow> if v \<noteq> [] then py_strip v else py_strip (email_preview e)
               | [] \<Rightarrow> py_strip (email_preview e)))"

text \<open>\<open>(email.get("from") or [{}])[0]\<close>\<close>

definition sender_person_of :: "email \<Rightarrow> person" where
  "sender_person_of e =
     (case email_from e of
        [] \<Rightarrow> \<lparr>person_name = [], person_email = []\<rparr>
      | p # _ \<Rightarrow> p)"

definition sender_email_of :: "email \<Rightarrow> string" where
  "sender_email_of e = py_lower (py_strip (person_email (sender_person_of e)))"

definition combined_text :: "email \<Rightarrow> string" where
  "combined_text e = py_lower (email_subject e @ [CHR 0x0A] @ extract_text_content e)"

definition urgent_keywords_of :: "config \<Rightarrow> string list" where
  "urgent_keywords_of cfg =
     map (\<lambda>k. py_lower (py_strip k)) (filter (\<lambda>k. py_strip k \<noteq> []) (triage_urgent_keywords cfg))"

definition keyword_hits_of :: "email \<Rightarrow> config \<Rightarrow> string list" where
  "keyword_hits_of e cfg =
     filter (\<lambda>kw. kw \<noteq> [] \<and> py_contains (combined_text e) kw) (urgent_keywords_of cfg)"

definition is_vip_of :: "email \<Rightarrow> string set \<Rightarrow> bool" where
  "is_vip_of e vips = (if sender_email_of e \<noteq> [] then sender_email_of e \<in> vips else False)"

definition actionable_of :: "email \<Rightarrow> bool" where
  "actionable_of e =
     (let combined = combined_text e;
          actionable = False;
          actionable = (if py_contains combined ''?'' then True else actionable);
          actionable = (if \<exists>pattern \<in> set ACTION_PATTERNS. re_search_word pattern combined
                        then True else actionable)
      in actionable)"

definition low_signal_of :: "email \<Rightarrow> bool" where
  "low_signal_of e =
     (let combined = combined_text e;
          sender_email = sender_email_of e;
          low_signal = False;
          low_signal = (if sender_email \<noteq> [] \<and>
                           (py_contains sender_email ''noreply'' \<or>
                            py_contains sender_email ''no-reply'' \<or>
                            py_contains sender_email ''notification'')
                        then True else low_signal);
          low_signal = (if \<exists>pattern \<in> set LOW_SIGNAL_PATTERNS. re_search_word pattern combined
                        then True else low_signal)
      in low_signal)"

definition classify_priority :: "email \<Rightarrow> config \<Rightarrow> string set \<Rightarrow> string \<times> bool \<times> string \<times> string" where
  "classify_priority e cfg vips =
     (let sender_email = sender_email_of e;
          sender_display = format_address (sender_person_of e);
          subject = email_subject e;
          is_vip = is_vip_of e vips;
          reasons = (if is_vip then [''VIP sender''] else []);
          sender_identities = configured_sender_identities cfg;
          sent_to_sender_identity = email_targets_sender_identity e sender_identities True;
          reasons = reasons @ (if sent_to_sender_identity
                               then [''sent to configured sender address''] else []);
          keyword_hits = keyword_hits_of e cfg;
          reasons = reasons @ (if keyword_hits \<noteq> []
                               then [''urgent keywords: '' @ py_join '', '' (take 3 keyword_hits)]
                               else []);
          actionable = actionable_of e;
          reasons = reasons @ (if actionable then [''contains request/question language''] else []);
          low_signal = low_signal_of e;
          reasons = reasons @ (if low_signal then [''low-signal/newsletter indicators''] else []);
          priority = (if is_vip \<or> keyword_hits \<noteq> [] \<or> sent_to_sender_identity then ''high''
                      else if actionable \<and> \<not> low_signal then ''medium''
                      else ''low'');
          summary = ''From '' @ py_or (py_or sender_display sender_email) ''unknown sender'' @
                    '' about '' @ [CHR 0x27] @ py_or subject ''(no subject)'' @ [CHR 0x27];
          reason = (if reasons \<noteq> [] then py_join ''; '' (dedupe_first_seen reasons [])
                    else ''default low-priority classification'')
      in (priority, actionable, reason, summary))"















section \<open>Assistant integration\<close>

text \<open>\<open>d.get(key, default)\<close> for a key that may be missing.\<close>

definition py_get :: "'a option \<Rightarrow> 'a \<Rightarrow> 'a" where
  "py_get v d = (case v of None \<Rightarrow> d | Some x \<Rightarrow> x)"

text \<open>The automation settings the cycle reads; \<open>None\<close> is a missing key.\<close>

record automation =
  auto_draft :: "bool option"
  draft_actionable_only :: "bool option"
  min_priority_for_draft :: "string option"
  auto_archive_priorities :: "string list"
  reply_all :: "bool option"
  codex_fallback_to_rules :: "bool option"

text \<open>
  The assistant is an external service: from the message, the rules baseline and the
  fallback reply it yields a parsed JSON object or fails. Both providers pass the parsed
  object through \<open>normalize_codex_triage_result\<close>.
\<close>

type_synonym codex_client = "email \<Rightarrow> string \<Rightarrow> bool \<Rightarrow> string \<Rightarrow> string \<Rightarrow> error + codex_parsed"

definition triage_email ::
  "codex_client \<Rightarrow> email \<Rightarrow> string \<Rightarrow> bool \<Rightarrow> string \<Rightarrow> string \<Rightarrow> error + codex_result" where
  "triage_email provider e rule_priority rule_actionable rule_reason fallback_reply =
     (case provider e rule_priority rule_actionable rule_reason fallback_reply of
        Inl exc \<Rightarrow> Inl exc
      | Inr parsed \<Rightarrow> normalize_codex_triage_result parsed fallback_reply)"

definition apply_codex_intelligence ::
  "email \<Rightarrow> config \<Rightarrow> automation \<Rightarrow> codex_client option \<Rightarrow> string \<Rightarrow> bool \<Rightarrow> string \<Rightarrow>
   string \<Rightarrow> string \<Rightarrow> error + (string \<times> bool \<times> string \<times> string \<times> string \<times> string)" where
  "apply_codex_intelligence e cfg auto codex rule_priority rule_actionable rule_reason
       rule_summary rule_reply =
     (case codex of
        None \<Rightarrow>
          Inr (rule_priority, rule_actionable, ''[rules] '' @ rule_reason, rule_summary,
               append_drafting_signature rule_reply cfg, ''rules'')
      | Some provider \<Rightarrow>
          (case triage_email provider e rule_priority rule_actionable rule_reason rule_reply of
             Inr result \<Rightarrow>
               Inr (res_priority result, res_actionable result,
                    ''[codex] '' @ res_reason result, res_summary result,
                    append_drafting_signature (res_reply_text result) cfg, ''codex'')
           | Inl exc \<Rightarrow>
               if py_get (codex_fallback_to_rules auto) True
               then Inr (rule_priority, rule_actionable,
                         ''[rules-fallback] '' @ rule_reason @ ''; codex_error='' @ error_message exc,
                         rule_summary, append_drafting_signature rule_reply cfg, ''rules_fallback'')
               else Inl exc))"

section \<open>Policy engine\<close>

text \<open>
  The mail store as the cycle sees it: what \<open>session()\<close> yields (the accounts of the
  session, or a failure), the account id in use, and the outcomes of moving a message
  to the archive and of creating a reply draft.
\<close>

record account =
  account_email :: string
  account_emailAddress :: string

record jmap_client =
  client_session :: "error + (string \<times> account) list"
  client_account_id :: string
  move_email_to_archive :: "string \<Rightarrow> error + unit"
  create_reply_draft_from_email :: "email \<Rightarrow> string \<Rightarrow> bool \<Rightarrow> error + string"

definition is_drafted_to_self :: "email \<Rightarrow> config \<Rightarrow> jmap_client \<Rightarrow> bool" where
  "is_drafted_to_self e cfg client =
     (if email_to e = [] then False
      else
        let identities = configured_sender_identities cfg;
            identities =
              (if identities = {} then
                 (case client_session client of
                    Inl exc \<Rightarrow> identities
                  | Inr accounts \<Rightarrow>
                      let acct = (case map_of accounts (client_account_id client) of
                                    Some a \<Rightarrow> a
                                  | None \<Rightarrow> \<lparr>account_email = [], account_emailAddress = []\<rparr>);
                          addr = py_lower (py_strip
                                   (py_or (py_or (account_email acct) (account_emailAddress acct)) []))
                      in if addr \<noteq> [] \<and> py_contains addr ''@''
                         then insert addr identities else identities)
               else identities)
        in if identities = {} then False
           else email_targets_sender_identity e identities False)"

definition priority_rank :: "string \<Rightarrow> nat option" where
  "priority_rank p = map_of PRIORITY_ORDER p"

definition should_create_draft ::
  "bool \<Rightarrow> automation \<Rightarrow> string set \<Rightarrow> string \<Rightarrow> bool \<Rightarrow> bool \<Rightarrow> string \<Rightarrow> email \<Rightarrow>
   jmap_client \<Rightarrow> config \<Rightarrow> bool" where
  "should_create_draft apply_mode auto blocked_sender_emails priority actionable
       has_existing_draft sender_email e client cfg =
     (if \<not> apply_mode then False
      else if \<not> py_get (auto_draft auto) True then False
      else if sender_email \<noteq> [] \<and> sender_email \<in> blocked_sender_emails then False
      else if has_existing_draft then False
      else if \<not> is_drafted_to_self e cfg client then False
      else
        let min_priority = py_lower (py_strip (py_get (min_priority_for_draft auto) ''high''));
            threshold = py_get (priority_rank min_priority) (the (priority_rank ''high''));
            current = py_get (priority_rank priority) (the (priority_rank ''low''))
        in if current < threshold then False
           else if py_get (draft_actionable_only auto) True \<and> \<not> actionable then False
           else True)"

definition should_archive_priority :: "bool \<Rightarrow> automation \<Rightarrow> string \<Rightarrow> bool" where
  "should_archive_priority apply_mode auto priority =
     (if \<not> apply_mode then False
      else py_lower priority \<in> set (map py_lower (auto_archive_priorities auto)))"

text \<open>
  \<open>INSERT ... ON CONFLICT(email) DO UPDATE\<close> on the VIP table.
\<close>

definition upsert_vip_row :: "vip_row list \<Rightarrow> vip_row \<Rightarrow> vip_row list" where
  "upsert_vip_row rows new =
     (if \<exists>row \<in> set rows. vip_email row = vip_email new
      then map (\<lambda>row. if vip_email row = vip_email new
                       then row\<lparr>vip_added_at := vip_added_at new, vip_source := vip_source new,
                                vip_note := vip_note new\<rparr>
                       else row) rows
      else rows @ [new])"

definition maybe_auto_promote_vip_from_high_frequency ::
  "db \<Rightarrow> config \<Rightarrow> string \<Rightarrow> string option \<Rightarrow> string \<Rightarrow> string \<Rightarrow> db \<times> bool" where
  "maybe_auto_promote_vip_from_high_frequency state_conn cfg sender_email previous_priority
       current_priority now =
     (let threshold = get_vip_frequency_threshold cfg in
      if threshold \<le> 0 then (state_conn, False)
      else
        let normalized_sender = normalize_vip_address sender_email in
        if normalized_sender = [] \<or> \<not> py_contains normalized_sender ''@'' then (state_conn, False)
        else if current_priority \<noteq> ''high'' then (state_conn, False)
        else if py_lower (case previous_priority of None \<Rightarrow> ''None'' | Some p \<Rightarrow> p) = ''high''
        then (state_conn, False)
        else
          let current_count = count_high_priority_emails_for_sender state_conn normalized_sender in
          if int current_count + 1 < threshold then (state_conn, False)
          else
            let note = ''auto-promoted after '' @ nat_digits (current_count + 1) @
                       '' high-priority emails'' in
            if normalized_sender \<in> get_vip_senders state_conn then (state_conn, False)
            else (state_conn\<lparr>vip_senders :=
                    upsert_vip_row (vip_senders state_conn)
                      \<lparr>vip_email = normalized_sender, vip_added_at = now,
                       vip_source = VIP_SOURCE_AUTO, vip_note = Some note\<rparr>\<rparr>, True))"

text \<open>The policy as the specification words it.\<close>

datatype priority_level = Low | Medium | High

fun level_rank :: "priority_level \<Rightarrow> nat" where
  "level_rank Low = 0"
| "level_rank Medium = 1"
| "level_rank High = 2"

definition level_of :: "string \<Rightarrow> priority_level option" where
  "level_of p =
     (if p = ''low'' then Some Low else if p = ''medium'' then Some Medium
      else if p = ''high'' then Some High else None)"

definition spec_min_priority :: "automation \<Rightarrow> priority_level" where
  "spec_min_priority auto =
     (case min_priority_for_draft auto of
        None \<Rightarrow> High
      | Some m \<Rightarrow> (case level_of (py_lower (py_strip m)) of Some l \<Rightarrow> l | None \<Rightarrow> High))"

definition mailstore_account_email :: "jmap_client \<Rightarrow> string option" where
  "mailstore_account_email client =
     (case client_session client of
        Inl exc \<Rightarrow> None
      | Inr accounts \<Rightarrow>
          (case map_of accounts (client_account_id client) of
             None \<Rightarrow> None
           | Some a \<Rightarrow>
               let addr = py_lower (py_strip (if account_email a \<noteq> [] then account_email a
                                              else account_emailAddress a))
               in if addr \<noteq> [] \<and> CHR ''@'' \<in> set addr then Some addr else None))"

definition spec_draft_identities :: "config \<Rightarrow> jmap_client \<Rightarrow> string set" where
  "spec_draft_identities cfg client =
     (if configured_sender_identities cfg \<noteq> {} then configured_sender_identities cfg
      else (case mailstore_account_email client of Some a \<Rightarrow> {a} | None \<Rightarrow> {}))"

definition spec_to_includes :: "email \<Rightarrow> string set \<Rightarrow> bool" where
  "spec_to_includes e ids =
     (\<exists>r \<in> set (email_to e).
        case r of None \<Rightarrow> False | Some p \<Rightarrow> normalize_vip_address (person_email p) \<in> ids)"


section \<open>Cycle orchestrator\<close>

definition get_state_row :: "db \<Rightarrow> string \<Rightarrow> state_row option" where
  "get_state_row conn eid = find (\<lambda>row. st_email_id row = eid) (triage_state conn)"

text \<open>\<open>INSERT ... ON CONFLICT(email_id) DO UPDATE\<close>: every column but \<open>first_seen_at\<close>.\<close>

definition upsert_state_row :: "db \<Rightarrow> state_row \<Rightarrow> db" where
  "upsert_state_row conn payload =
     (if \<exists>row \<in> set (triage_state conn). st_email_id row = st_email_id payload
      then conn\<lparr>triage_state :=
             map (\<lambda>row. if st_email_id row = st_email_id payload
                         then payload\<lparr>st_first_seen_at := st_first_seen_at row\<rparr> else row)
                 (triage_state conn)\<rparr>
      else conn\<lparr>triage_state := triage_state conn @ [payload]\<rparr>)"

text \<open>\<open>UPDATE triage_state SET last_seen_at = ?, updated_at = ? WHERE email_id = ?\<close>\<close>

definition touch_state_row :: "db \<Rightarrow> string \<Rightarrow> string \<Rightarrow> db" where
  "touch_state_row conn eid now =
     conn\<lparr>triage_state :=
       map (\<lambda>row. if st_email_id row = eid
                   then row\<lparr>st_last_seen_at := now, st_updated_at := now\<rparr> else row)
           (triage_state conn)\<rparr>"

definition record_run :: "db \<Rightarrow> cycle_summary \<Rightarrow> bool \<Rightarrow> db" where
  "record_run conn summary apply_mode =
     conn\<lparr>triage_runs := triage_runs conn @
       [\<lparr>run_at = summary_run_at summary,
         run_mode = (if apply_mode then ''apply'' else ''dry-run''),
         run_emails_seen = emails_seen summary,
         run_triaged_count = triaged_count summary,
         run_drafted_count = drafted_count summary,
         run_skipped_count = skipped_count summary,
         run_error_count = error_count summary,
         run_details = summary\<rparr>]\<rparr>"

text \<open>
  The calls a cycle makes, in order: the rule classifier, the assistant, and the mail
  store's move and draft-creation operations, each with the id of the message.
\<close>

datatype event = ClassifierCall string | AssistantCall string | ArchiveCall string | DraftCall string

text \<open>
  The state threaded through the loop over the messages: the open database connection,
  the summary so far, the calls made so far, and the number of clock readings taken
  (\<open>utc_now_iso\<close> returns \<open>clock n\<close> at its \<open>n\<close>-th call).
\<close>

record cycle_state =
  cs_db :: db
  cs_summary :: cycle_summary
  cs_trace :: "event list"
  cs_ticks :: nat

text \<open>\<open>existing["draft_id"] if (existing and existing["draft_id"]) else None\<close>\<close>

definition existing_draft_id_of :: "state_row option \<Rightarrow> string option" where
  "existing_draft_id_of existing =
     (case existing of
        None \<Rightarrow> None
      | Some row \<Rightarrow> (case st_draft_id row of
                       None \<Rightarrow> None
                     | Some d \<Rightarrow> if d \<noteq> [] then Some d else None))"

text \<open>The branch for a message that already has a draft and is not reprocessed.\<close>

definition skip_drafted :: "string \<Rightarrow> string \<Rightarrow> state_row option \<Rightarrow> cycle_state \<Rightarrow> cycle_state" where
  "skip_drafted eid now existing st =
     st\<lparr>cs_db := touch_state_row (cs_db st) eid now,
        cs_summary := (cs_summary st)
          \<lparr>skipped_count := skipped_count (cs_summary st) + 1,
           summary_emails := summary_emails (cs_summary st) @
             [\<lparr>entry_email_id = eid,
               entry_priority = (case existing of Some row \<Rightarrow> st_priority row | None \<Rightarrow> ''unknown''),
               entry_actionable = None,
               entry_status = ''skipped'',
               entry_draft_id = (case existing of Some row \<Rightarrow> st_draft_id row | None \<Rightarrow> None),
               entry_reason = ''already has draft'',
               entry_source = None,
               entry_sender_email = None,
               entry_auto_promoted_vip = None\<rparr>]\<rparr>\<rparr>"

text \<open>
  The archive-or-draft decision and its action. The result is the status, the draft
  id, the error text, and the state with the counters and the call trace updated.
\<close>

definition perform_action ::
  "jmap_client \<Rightarrow> config \<Rightarrow> automation \<Rightarrow> bool \<Rightarrow> bool \<Rightarrow> string set \<Rightarrow> email \<Rightarrow>
   string option \<Rightarrow> string \<Rightarrow> bool \<Rightarrow> string \<Rightarrow> string \<Rightarrow> cycle_state \<Rightarrow>
   string \<times> string option \<times> string \<times> cycle_state" where
  "perform_action client cfg auto apply_mode reprocess blocked_sender_emails e
       existing_draft_id priority actionable reply_text sender_email st =
     (let eid = email_id e;
          status = ''triaged'';
          draft_id = (if existing_draft_id \<noteq> None \<and> \<not> reprocess then existing_draft_id else None);
          error_text = []
      in
      if should_archive_priority apply_mode auto priority then
        (let st = st\<lparr>cs_trace := cs_trace st @ [ArchiveCall eid]\<rparr> in
         case move_email_to_archive client eid of
           Inr _ \<Rightarrow>
             (''archived'', draft_id, error_text,
              st\<lparr>cs_summary := (cs_summary st)
                    \<lparr>archived_count := archived_count (cs_summary st) + 1\<rparr>\<rparr>)
         | Inl exc \<Rightarrow>
             (''error'', draft_id, error_message exc,
              st\<lparr>cs_summary := (cs_summary st)
                    \<lparr>error_count := error_count (cs_summary st) + 1\<rparr>\<rparr>))
      else if should_create_draft apply_mode auto blocked_sender_emails priority actionable
                (existing_draft_id \<noteq> None \<and> \<not> reprocess) sender_email e client cfg then
        (let st = st\<lparr>cs_trace := cs_trace st @ [DraftCall eid]\<rparr> in
         case create_reply_draft_from_email client e reply_text (py_get (reply_all auto) True) of
           Inr new_id \<Rightarrow>
             (''drafted'', Some new_id, error_text,
              st\<lparr>cs_summary := (cs_summary st)
                    \<lparr>drafted_count := drafted_count (cs_summary st) + 1\<rparr>\<rparr>)
         | Inl exc \<Rightarrow>
             (''error'',
              (if existing_draft_id \<noteq> None \<and> (draft_id = None \<or> draft_id = Some [])
               then existing_draft_id else draft_id),
              error_message exc,
              st\<lparr>cs_summary := (cs_summary st)
                    \<lparr>error_count := error_count (cs_summary st) + 1\<rparr>\<rparr>))
      else (status, draft_id, error_text, st))"

text \<open>
  The end of the loop body: count the message as triaged unless the action failed,
  upsert the state row, and append the entry to the summary.
\<close>

definition finish_email ::
  "email \<Rightarrow> string \<Rightarrow> state_row option \<Rightarrow> string \<Rightarrow> bool \<Rightarrow> string \<Rightarrow> string \<Rightarrow> string \<Rightarrow>
   string \<Rightarrow> string \<Rightarrow> bool \<Rightarrow> string \<Rightarrow> string option \<Rightarrow> string \<Rightarrow> cycle_state \<Rightarrow>
   cycle_state" where
  "finish_email e now existing priority actionable reason summary_line reply_text source
       sender_email auto_promoted_vip status draft_id error_text st =
     (let eid = email_id e;
          st = (if status \<noteq> ''error''
                then st\<lparr>cs_summary := (cs_summary st)
                         \<lparr>triaged_count := triaged_count (cs_summary st) + 1\<rparr>\<rparr>
                else st);
          state_payload =
            \<lparr>st_email_id = eid,
             st_subject = email_subject e,
             st_sender = format_address (sender_person_of e),
             st_sender_email = sender_email,
             st_received_at = email_receivedAt e,
             st_priority = priority,
             st_actionable = actionable,
             st_reason = reason,
             st_summary = summary_line,
             st_reply_text = reply_text,
             st_drafted = (draft_id \<noteq> None \<and> draft_id \<noteq> Some []),
             st_draft_id = draft_id,
             st_status = status,
             st_error = error_text,
             st_first_seen_at = (case existing of Some row \<Rightarrow> st_first_seen_at row
                                 | None \<Rightarrow> now),
             st_last_seen_at = now,
             st_updated_at = now\<rparr>;
          st = st\<lparr>cs_db := upsert_state_row (cs_db st) state_payload\<rparr>
      in st\<lparr>cs_summary := (cs_summary st)
              \<lparr>summary_emails := summary_emails (cs_summary st) @
                 [\<lparr>entry_email_id = eid,
                   entry_priority = priority,
                   entry_actionable = Some actionable,
                   entry_status = status,
                   entry_draft_id = draft_id,
                   entry_reason = reason,
                   entry_source = Some source,
                   entry_sender_email = Some sender_email,
                   entry_auto_promoted_vip = Some auto_promoted_vip\<rparr>]\<rparr>\<rparr>)"

text \<open>The body of the loop over the messages. \<open>Inl\<close> is an exception that leaves the loop.\<close>

definition process_email ::
  "jmap_client \<Rightarrow> config \<Rightarrow> automation \<Rightarrow> codex_client option \<Rightarrow> bool \<Rightarrow> bool \<Rightarrow>
   string set \<Rightarrow> string set \<Rightarrow> (nat \<Rightarrow> string) \<Rightarrow> email \<Rightarrow> cycle_state \<Rightarrow>
   error + cycle_state" where
  "process_email client cfg auto codex apply_mode reprocess vip_set blocked_sender_emails
       clock e st =
     (let eid = email_id e in
      if eid = [] then
        Inr (st\<lparr>cs_summary := (cs_summary st)\<lparr>error_count := error_count (cs_summary st) + 1\<rparr>\<rparr>)
      else
        let now = clock (cs_ticks st);
            st = st\<lparr>cs_ticks := cs_ticks st + 1\<rparr>;
            existing = get_state_row (cs_db st) eid;
            existing_draft_id = existing_draft_id_of existing;
            has_existing_draft = (existing_draft_id \<noteq> None)
        in
        if has_existing_draft \<and> \<not> reprocess then Inr (skip_drafted eid now existing st)
        else
          (case classify_priority e cfg vip_set of
             (rule_priority, rule_actionable, rule_reason, rule_summary) \<Rightarrow>
          let st = st\<lparr>cs_trace := cs_trace st @ [ClassifierCall eid]\<rparr>;
              rule_reply = compose_auto_reply e rule_priority cfg;
              st = (if codex \<noteq> None then st\<lparr>cs_trace := cs_trace st @ [AssistantCall eid]\<rparr>
                    else st)
          in
          (case apply_codex_intelligence e cfg auto codex rule_priority rule_actionable
                  rule_reason rule_summary rule_reply of
             Inl exc \<Rightarrow> Inl exc
           | Inr (priority, actionable, reason, summary_line, reply_text, source) \<Rightarrow>
               let sender_email = sender_email_of e in
               (case maybe_auto_promote_vip_from_high_frequency (cs_db st) cfg sender_email
                       (map_option st_priority existing) priority (clock (cs_ticks st)) of
                  (conn, auto_promoted_vip) \<Rightarrow>
               let st = st\<lparr>cs_db := conn,
                           cs_ticks := (if auto_promoted_vip then cs_ticks st + 1 else cs_ticks st)\<rparr>
               in
               (case perform_action client cfg auto apply_mode reprocess blocked_sender_emails e
                       existing_draft_id priority actionable reply_text sender_email st of
                  (status, draft_id, error_text, st) \<Rightarrow>
               Inr (finish_email e now existing priority actionable reason summary_line
                      reply_text source sender_email auto_promoted_vip status draft_id
                      error_text st))))))"

fun process_emails ::
  "jmap_client \<Rightarrow> config \<Rightarrow> automation \<Rightarrow> codex_client option \<Rightarrow> bool \<Rightarrow> bool \<Rightarrow>
   string set \<Rightarrow> string set \<Rightarrow> (nat \<Rightarrow> string) \<Rightarrow> email list \<Rightarrow> cycle_state \<Rightarrow>
   error + cycle_state" where
  "process_emails client cfg auto codex apply_mode reprocess vip_set blocked clock [] st = Inr st"
| "process_emails client cfg auto codex apply_mode reprocess vip_set blocked clock (e # es) st =
     (case process_email client cfg auto codex apply_mode reprocess vip_set blocked clock e st of
        Inl exc \<Rightarrow> Inl exc
      | Inr st' \<Rightarrow>
          process_emails client cfg auto codex apply_mode reprocess vip_set blocked clock es st')"

text \<open>
  One cycle from the point where the unread messages have been fetched: \<open>codex\<close> is what
  \<open>build_codex_client\<close> returned and \<open>emails\<close> what \<open>query_emails\<close> returned. An
  exception (\<open>Inl\<close>) leaves the cycle before \<open>record_run\<close>; the caller rolls back.
\<close>

definition process_one_cycle ::
  "jmap_client \<Rightarrow> config \<Rightarrow> automation \<Rightarrow> db \<Rightarrow> bool \<Rightarrow> bool \<Rightarrow> codex_client option \<Rightarrow>
   email list \<Rightarrow> (nat \<Rightarrow> string) \<Rightarrow> error + cycle_state" where
  "process_one_cycle client cfg auto state_conn apply_mode reprocess codex emails clock =
     (let run_at = clock 0;
          summary = \<lparr>summary_run_at = run_at, summary_apply_mode = apply_mode,
                     emails_seen = length emails, triaged_count = 0, archived_count = 0,
                     drafted_count = 0, skipped_count = 0, error_count = 0,
                     summary_emails = []\<rparr>;
          vip_set = get_vip_senders state_conn;
          blocked_sender_emails = get_draft_blocked_senders state_conn;
          st = \<lparr>cs_db = state_conn, cs_summary = summary, cs_trace = [], cs_ticks = 1\<rparr>
      in case process_emails client cfg auto codex apply_mode reprocess vip_set
                blocked_sender_emails clock emails st of
           Inl exc \<Rightarrow> Inl exc
         | Inr st \<Rightarrow> Inr (st\<lparr>cs_db := record_run (cs_db st) (cs_summary st) apply_mode\<rparr>))"


section \<open>Specification-level notions for the cycle\<close>

text \<open>
  When the auto-promotion rule fires: the threshold is at least one, the priority just
  computed is \<open>high\<close>, the stored priority is not, the sender's high-priority rows plus
  this message reach the threshold, the normalised sender address contains \<open>@\<close>, and
  the sender is not yet in the VIP set. The row that is then written.
\<close>

definition spec_promotes :: "db \<Rightarrow> config \<Rightarrow> string \<Rightarrow> string option \<Rightarrow> string \<Rightarrow> bool" where
  "spec_promotes conn cfg sender_email previous_priority current_priority =
     (case triage_vip_frequency_threshold cfg of
        None \<Rightarrow> False
      | Some T \<Rightarrow>
          T \<ge> 1 \<and>
          current_priority = ''high'' \<and>
          (case previous_priority of None \<Rightarrow> True | Some p \<Rightarrow> py_lower p \<noteq> ''high'') \<and>
          int (count_high_priority_emails_for_sender conn (normalize_vip_address sender_email)) + 1 \<ge> T \<and>
          CHR ''@'' \<in> set (normalize_vip_address sender_email) \<and>
          normalize_vip_address sender_email \<notin> get_vip_senders conn)"

definition promoted_vip_row :: "db \<Rightarrow> string \<Rightarrow> string \<Rightarrow> vip_row" where
  "promoted_vip_row conn sender_email now =
     \<lparr>vip_email = normalize_vip_address sender_email,
      vip_added_at = now,
      vip_source = ''auto_frequency'',
      vip_note = Some (''auto-promoted after '' @
         nat_digits (count_high_priority_emails_for_sender conn (normalize_vip_address sender_email) + 1) @
         '' high-priority emails'')\<rparr>"


text \<open>The counters of a summary, and the entries of a summary with a given status.\<close>

definition count_status :: "string \<Rightarrow> cycle_summary \<Rightarrow> nat" where
  "count_status s summary = length (filter (\<lambda>en. entry_status en = s) (summary_emails summary))"

text \<open>
  The loop state after the classifier, the assistant and the promotion rule have run for
  a message: the calls are in the trace, the connection is the one the promotion rule
  left, and the clock has been read once, or twice when a VIP row was written.
\<close>

definition after_promotion ::
  "codex_client option \<Rightarrow> email \<Rightarrow> db \<Rightarrow> bool \<Rightarrow> cycle_state \<Rightarrow> cycle_state" where
  "after_promotion codex e conn promoted st =
     st\<lparr>cs_trace := cs_trace st @ [ClassifierCall (email_id e)] @
                    (if codex \<noteq> None then [AssistantCall (email_id e)] else []),
        cs_db := conn,
        cs_ticks := (if promoted then cs_ticks st + 2 else cs_ticks st + 1)\<rparr>"

text \<open>
  The counters are mutually exclusive per message when each of them is the number of
  summary entries with the matching status: \<open>skipped\<close>, \<open>archived\<close> and \<open>drafted\<close>
  count their own entries, \<open>triaged_count\<close> counts the entries whose status is
  \<open>triaged\<close>, \<open>archived\<close> or \<open>drafted\<close>, and \<open>error_count\<close> counts the entries with
  status \<open>error\<close> and the messages without id, which get no entry.
\<close>

definition counters_exclusive :: "nat \<Rightarrow> cycle_summary \<Rightarrow> bool" where
  "counters_exclusive no_id s =
     (skipped_count s = count_status ''skipped'' s \<and>
      archived_count s = count_status ''archived'' s \<and>
      drafted_count s = count_status ''drafted'' s \<and>
      triaged_count s =
        count_status ''triaged'' s + count_status ''archived'' s + count_status ''drafted'' s \<and>
      error_count s = count_status ''error'' s + no_id)"

definition counters_total :: "cycle_summary \<Rightarrow> nat" where
  "counters_total s = triaged_count s + skipped_count s + error_count s"

definition missing_id :: "email \<Rightarrow> nat" where
  "missing_id e = (if email_id e = [] then 1 else 0)"


text \<open>
  The draft-block table holds addresses: every stored value contains \<open>@\<close>. Additions
  keep this, and it keeps the empty string out of the set the cycle reads.
\<close>

definition addresses_only :: "db \<Rightarrow> bool" where
  "addresses_only conn =
     list_all (\<lambda>row. CHR ''@'' \<in> set (blocked_email row)) (draft_blocked_senders conn)"

text \<open>A string without line break.\<close>

definition single_line :: "string \<Rightarrow> bool" where
  "single_line s = list_all (\<lambda>c. \<not> py_linebreak c) s"

section \<open>Example data\<close>

text \<open>
  A small store, configuration and mail store on which the theorems are instantiated:
  the operator is \<open>me@example.com\<close>, the promotion threshold is three, Alice has two
  stored high-priority messages, and Bob's message \<open>m0\<close> already has the draft \<open>d-42\<close>.
\<close>

definition example_config :: config where
  "example_config =
     \<lparr>mail_sender_emails = SenderEmailsList [''me@example.com''],
      triage_urgent_keywords = [''urgent''],
      triage_vip_frequency_threshold = Some 3,
      drafting_signature = []\<rparr>"

definition example_automation :: automation where
  "example_automation =
     \<lparr>auto_draft = Some True, draft_actionable_only = Some True,
      min_priority_for_draft = Some ''high'',
      auto_archive_priorities = [''low'', ''medium''],
      reply_all = Some True, codex_fallback_to_rules = Some True\<rparr>"

definition example_client :: jmap_client where
  "example_client =
     \<lparr>client_session = Inl (JMAPError ''offline''), client_account_id = [],
      move_email_to_archive = (\<lambda>eid. Inr ()),
      create_reply_draft_from_email = (\<lambda>e reply_text reply_all. Inr ''d-1'')\<rparr>"

definition example_row :: "string \<Rightarrow> string \<Rightarrow> string \<Rightarrow> string option \<Rightarrow> state_row" where
  "example_row eid sender priority draft_id =
     \<lparr>st_email_id = eid, st_subject = ''Earlier message'', st_sender = sender,
      st_sender_email = sender, st_received_at = ''2024-04-30T09:00:00Z'',
      st_priority = priority, st_actionable = True, st_reason = ''[rules] earlier'',
      st_summary = ''earlier'', st_reply_text = ''earlier reply'',
      st_drafted = (draft_id \<noteq> None), st_draft_id = draft_id,
      st_status = (if draft_id \<noteq> None then ''drafted'' else ''triaged''), st_error = [],
      st_first_seen_at = ''2024-04-30T09:05:00Z'', st_last_seen_at = ''2024-04-30T09:05:00Z'',
      st_updated_at = ''2024-04-30T09:05:00Z''\<rparr>"

definition example_db :: "vip_row list \<Rightarrow> db" where
  "example_db vip_rows =
     \<lparr>triage_state =
        [example_row ''m0'' ''bob@example.org'' ''high'' (Some ''d-42''),
         example_row ''m1'' ''alice@example.org'' ''high'' None,
         example_row ''m2'' ''alice@example.org'' ''high'' None],
      triage_runs = [],
      vip_senders = vip_rows,
      draft_blocked_senders = []\<rparr>"

definition example_email :: "string \<Rightarrow> string \<Rightarrow> string \<Rightarrow> string \<Rightarrow> email" where
  "example_email eid sender recipient subject =
     \<lparr>email_id = eid,
      email_from = [\<lparr>person_name = [], person_email = sender\<rparr>],
      email_to = [Some \<lparr>person_name = [], person_email = recipient\<rparr>],
      email_cc = [], email_subject = subject, email_preview = [],
      email_bodyValues = [], email_textBody = [],
      email_receivedAt = ''2024-05-01T09:59:00Z''\<rparr>"

definition example_clock :: "nat \<Rightarrow> string" where
  "example_clock n = ''2024-05-01T10:00:0'' @ nat_digits n @ ''Z''"

definition example_state :: "db \<Rightarrow> cycle_state" where
  "example_state conn =
     \<lparr>cs_db = conn,
      cs_summary = \<lparr>summary_run_at = example_clock 0, summary_apply_mode = False,
                    emails_seen = 1, triaged_count = 0, archived_count = 0,
                    drafted_count = 0, skipped_count = 0, error_count = 0,
                    summary_emails = []\<rparr>,
      cs_trace = [], cs_ticks = 1\<rparr>"

definition example_manual_vip :: vip_row where
  "example_manual_vip =
     \<lparr>vip_email = ''alice@example.org'', vip_added_at = ''2024-01-01T00:00:00Z'',
      vip_source = ''manual'', vip_note = None\<rparr>"




section \<open>Verified properties\<close>

subsection \<open>Facts about the string primitives\<close>

lemma lower_char_idem: "lower_char (lower_char c) = lower_char c"
  by (auto simp: lower_char_def split: option.splits if_splits)

lemma py_lower_idem: "py_lower (py_lower s) = py_lower s"
  by (simp add: py_lower_def lower_char_idem)

lemma isspace_lower_char: "py_isspace (lower_char c) = py_isspace c"
  by (auto simp: lower_char_def py_isspace_def split: option.splits if_splits)

lemma dropWhile_id_iff: "dropWhile P xs = xs \<longleftrightarrow> (xs = [] \<or> \<not> P (hd xs))"
proof (cases xs)
  case Nil
  then show ?thesis by simp
next
  case (Cons x ys)
  have "length (dropWhile P ys) \<le> length ys" by (rule length_dropWhile_le)
  then have "dropWhile P ys \<noteq> x # ys" by auto
  with Cons show ?thesis by simp
qed

lemma py_lstrip_id_iff: "py_lstrip s = s \<longleftrightarrow> (s = [] \<or> \<not> py_isspace (hd s))"
  by (simp add: py_lstrip_def dropWhile_id_iff)

lemma py_rstrip_id_iff: "py_rstrip s = s \<longleftrightarrow> (s = [] \<or> \<not> py_isspace (last s))"
proof -
  have "py_rstrip s = s \<longleftrightarrow> dropWhile py_isspace (rev s) = rev s"
    unfolding py_rstrip_def by (metis rev_rev_ident)
  then show ?thesis
    by (simp add: dropWhile_id_iff hd_rev)
qed

lemma py_rstrip_idem: "py_rstrip (py_rstrip s) = py_rstrip s"
  by (simp add: py_rstrip_def)

lemma py_rstrip_stripped: "py_rstrip s = [] \<or> \<not> py_isspace (last (py_rstrip s))"
  using py_rstrip_idem py_rstrip_id_iff by blast

lemma py_strip_stripped_r: "py_strip s = [] \<or> \<not> py_isspace (last (py_strip s))"
  unfolding py_strip_def by (rule py_rstrip_stripped)

lemma py_lstrip_stripped: "py_lstrip s = [] \<or> \<not> py_isspace (hd (py_lstrip s))"
  unfolding py_lstrip_def by (metis dropWhile_eq_Nil_conv hd_dropWhile)

lemma py_rstrip_prefix: "\<exists>t. s = py_rstrip s @ t \<and> (\<forall>c\<in>set t. py_isspace c)"
proof -
  have "rev s = takeWhile py_isspace (rev s) @ dropWhile py_isspace (rev s)" by simp
  then have "s = rev (dropWhile py_isspace (rev s)) @ rev (takeWhile py_isspace (rev s))"
    by (metis rev_append rev_rev_ident)
  moreover have "\<forall>c\<in>set (rev (takeWhile py_isspace (rev s))). py_isspace c"
    by (auto dest: set_takeWhileD)
  ultimately show ?thesis unfolding py_rstrip_def by blast
qed

lemma hd_py_rstrip: "py_rstrip s \<noteq> [] \<Longrightarrow> hd (py_rstrip s) = hd s"
  using py_rstrip_prefix[of s] by (metis hd_append2)

lemma py_strip_stripped_l: "py_strip s = [] \<or> \<not> py_isspace (hd (py_strip s))"
proof (cases "py_strip s = []")
  case True then show ?thesis by simp
next
  case False
  then have ne: "py_rstrip (py_lstrip s) \<noteq> []" by (simp add: py_strip_def)
  then have "py_lstrip s \<noteq> []" by (auto simp: py_rstrip_def)
  then have "\<not> py_isspace (hd (py_lstrip s))" using py_lstrip_stripped by blast
  then show ?thesis using hd_py_rstrip[OF ne] by (simp add: py_strip_def)
qed

lemma py_strip_id_iff:
  "py_strip s = s \<longleftrightarrow> (s = [] \<or> (\<not> py_isspace (hd s) \<and> \<not> py_isspace (last s)))"
proof
  assume "py_strip s = s"
  then show "s = [] \<or> (\<not> py_isspace (hd s) \<and> \<not> py_isspace (last s))"
    using py_strip_stripped_l[of s] py_strip_stripped_r[of s] by auto
next
  assume "s = [] \<or> (\<not> py_isspace (hd s) \<and> \<not> py_isspace (last s))"
  then have "py_lstrip s = s" "py_rstrip s = s"
    by (auto simp: py_lstrip_id_iff py_rstrip_id_iff)
  then show "py_strip s = s" by (simp add: py_strip_def)
qed

lemma set_py_strip: "set (py_strip s) \<subseteq> set s"
  unfolding py_strip_def py_rstrip_def py_lstrip_def
  by (metis set_dropWhileD set_rev subsetI)

lemma py_rfind_None_iff: "py_rfind s c = None \<longleftrightarrow> c \<notin> set s"
  by (induction s) (auto split: option.splits)

lemma py_rfind_Some: "py_rfind s c = Some i \<Longrightarrow> c \<notin> set (drop (Suc i) s)"
proof (induction s arbitrary: i)
  case Nil then show ?case by simp
next
  case (Cons x xs)
  then show ?case
    by (auto split: option.splits if_splits simp: py_rfind_None_iff)
qed


lemma lowercase_py_lower: "lowercase (py_lower s)"
  by (simp add: lowercase_def py_lower_def lower_char_idem)

lemma lowercase_fix: "lowercase s \<Longrightarrow> py_lower s = s"
  by (simp add: lowercase_def py_lower_def map_idI)

lemma lowercase_subset: "lowercase s \<Longrightarrow> set t \<subseteq> set s \<Longrightarrow> lowercase t"
  by (auto simp: lowercase_def)

lemma py_lower_Nil_iff: "py_lower s = [] \<longleftrightarrow> s = []"
  by (simp add: py_lower_def)

lemma last_py_lower: "s \<noteq> [] \<Longrightarrow> last (py_lower s) = lower_char (last s)"
  by (simp add: py_lower_def last_map)

lemma normalize_fixpoint:
  assumes "lowercase s" "py_strip s = s" "\<not> py_startswith s ''mailto:''" "\<not> has_bracket_pair s"
  shows "normalize_vip_address s = s"
  using assms
  by (auto simp: normalize_vip_address_def Let_def lowercase_fix has_bracket_pair_def
           split: option.splits)

lemma normalize_cases:
  obtains (empty) "normalize_vip_address a = []"
  | (plain) m where "normalize_vip_address a = m" "lowercase m" "\<not> has_bracket_pair m"
      "m = [] \<or> \<not> py_isspace (last m)"
  | (bracket) m where "normalize_vip_address a = py_strip m" "lowercase m" "CHR ''<'' \<notin> set m"
proof -
  define n where "n = py_lower (py_strip a)"
  define m where "m = (if py_startswith n ''mailto:'' then drop (length ''mailto:'') n else n)"
  have ln: "lowercase n" by (simp add: n_def lowercase_py_lower)
  have lm: "lowercase m" unfolding m_def using ln
    by (auto intro: lowercase_subset[OF ln] dest: in_set_dropD)
  show ?thesis
  proof (cases "n = []")
    case True
    then have "normalize_vip_address a = []"
      by (simp add: normalize_vip_address_def n_def)
    then show ?thesis by (rule empty)
  next
    case False
    then have sa: "py_strip a \<noteq> []" by (simp add: n_def py_lower_Nil_iff)
    then have "\<not> py_isspace (last (py_strip a))" using py_strip_stripped_r by blast
    then have "\<not> py_isspace (last n)"
      using sa by (simp add: n_def last_py_lower isspace_lower_char)
    then have lastm: "m = [] \<or> \<not> py_isspace (last m)"
      by (auto simp: m_def)
    show ?thesis
    proof (cases "has_bracket_pair m")
      case False
      then have "normalize_vip_address a = m"
        using \<open>n \<noteq> []\<close>
        by (auto simp: normalize_vip_address_def Let_def n_def[symmetric] m_def[symmetric]
              has_bracket_pair_def split: option.splits)
      then show ?thesis using lm False lastm by (rule plain)
    next
      case True
      then obtain lt gt where lt: "py_rfind m CHR ''<'' = Some lt"
        and gt: "py_rfind m CHR ''>'' = Some gt" and lg: "gt > lt"
        by (auto simp: has_bracket_pair_def split: option.splits)
      have eq: "normalize_vip_address a = py_strip (py_slice m (lt + 1) gt)"
        using \<open>n \<noteq> []\<close> lt gt lg
        by (simp add: normalize_vip_address_def Let_def n_def[symmetric] m_def[symmetric])
      have "set (py_slice m (lt + 1) gt) \<subseteq> set (drop (Suc lt) m)"
        by (auto simp: py_slice_def dest: in_set_takeD)
      then have nolt: "CHR ''<'' \<notin> set (py_slice m (lt + 1) gt)"
        using py_rfind_Some[OF lt] by blast
      have "lowercase (py_slice m (lt + 1) gt)"
        by (rule lowercase_subset[OF lm]) (auto simp: py_slice_def dest: in_set_takeD in_set_dropD)
      with eq show ?thesis using nolt by (intro bracket)
    qed
  qed
qed

subsection \<open>Address normalisation (C8)\<close>

text \<open>
  C8, as amended. Normalising twice gives the same result as normalising once for every
  ASCII input whose normalised form neither begins with \<open>mailto:\<close> nor with whitespace.
  The function removes one \<open>mailto:\<close> prefix and does not trim after removing it, so
  the unrestricted law fails (see the counterexample below).
\<close>

theorem normalize_vip_address_idempotent_when_clean:
  assumes "ascii a"
      and "\<not> py_startswith (normalize_vip_address a) ''mailto:''"
      and "py_lstrip (normalize_vip_address a) = normalize_vip_address a"
    shows "normalize_vip_address (normalize_vip_address a) = normalize_vip_address a"
proof (cases a rule: normalize_cases)
  case empty
  then show ?thesis by (simp add: normalize_vip_address_def py_strip_def py_lstrip_def py_rstrip_def py_lower_def)
next
  case (plain m)
  have "py_rstrip m = m" using plain(4) by (simp add: py_rstrip_id_iff)
  then have "py_strip m = m" using assms(3) plain(1) by (simp add: py_strip_def)
  then show ?thesis using plain assms(2) by (simp add: normalize_fixpoint)
next
  case (bracket m)
  let ?r = "py_strip m"
  have "lowercase ?r" using bracket(2) set_py_strip by (rule lowercase_subset)
  moreover have "py_strip ?r = ?r"
    using py_strip_stripped_l[of m] py_strip_stripped_r[of m] by (auto simp: py_strip_id_iff)
  moreover have "CHR ''<'' \<notin> set ?r" using bracket(3) set_py_strip by blast
  then have "\<not> has_bracket_pair ?r"
    by (simp add: has_bracket_pair_def py_rfind_None_iff[symmetric])
  ultimately show ?thesis using assms(2) bracket(1) by (simp add: normalize_fixpoint)
qed

text \<open>The theorem applied to a display-form address.\<close>

theorem normalize_vip_address_idempotent_witness:
  "ascii ''Bob <Bob@Example.COM> '' \<and>
   \<not> py_startswith (normalize_vip_address ''Bob <Bob@Example.COM> '') ''mailto:'' \<and>
   py_lstrip (normalize_vip_address ''Bob <Bob@Example.COM> '') = normalize_vip_address ''Bob <Bob@Example.COM> '' \<and>
   normalize_vip_address (normalize_vip_address ''Bob <Bob@Example.COM> '') = ''bob@example.com''"
proof -
  have h0: "ascii ''Bob <Bob@Example.COM> ''"
    by code_simp
  have v: "normalize_vip_address ''Bob <Bob@Example.COM> '' = ''bob@example.com''"
    by code_simp
  have h1: "\<not> py_startswith (normalize_vip_address ''Bob <Bob@Example.COM> '') ''mailto:''"
    unfolding v by code_simp
  have h2: "py_lstrip (normalize_vip_address ''Bob <Bob@Example.COM> '') = normalize_vip_address ''Bob <Bob@Example.COM> ''"
    unfolding v by code_simp
  show ?thesis
    using normalize_vip_address_idempotent_when_clean[OF h0 h1 h2] h0 h1 h2 v by simp
qed

text \<open>
  C8 as stated fails: a doubled \<open>mailto:\<close> prefix loses one copy per pass.
\<close>

theorem normalize_vip_address_not_idempotent:
  "normalize_vip_address (normalize_vip_address ''mailto:mailto:a@b.c'') \<noteq>
   normalize_vip_address ''mailto:mailto:a@b.c''"
  by code_simp

subsection \<open>Splitting address lists (C9)\<close>

lemma split_address_parts_eq:
  "split_address_parts parts acc =
     acc @ filter (\<lambda>p. p \<noteq> []) (map normalize_vip_address parts)"
  by (induction parts arbitrary: acc) (simp_all add: Let_def)

lemma normalize_vip_address_Nil: "normalize_vip_address [] = []"
  by (simp add: normalize_vip_address_def py_strip_def py_lstrip_def py_rstrip_def py_lower_def)

lemma split_address_raws_eq:
  "split_address_raws raws acc = acc @ comma_split_normalized raws"
proof (induction raws arbitrary: acc)
  case Nil
  then show ?case by (simp add: comma_split_normalized_def)
next
  case (Cons raw raws)
  show ?case
  proof (cases "raw = []")
    case True
    then show ?thesis
      using Cons by (simp add: comma_split_normalized_def normalize_vip_address_Nil)
  next
    case False
    then show ?thesis
      using Cons by (simp add: comma_split_normalized_def split_address_parts_eq)
  qed
qed

text \<open>
  C9, as amended. For every list of input strings the splitter splits each element on
  comma only, normalises each piece, drops the pieces that normalise to the empty
  string, and returns the rest in input order; it does not split on semicolon or
  newline and does not deduplicate.
\<close>

theorem split_address_values_comma_only:
  "split_address_values (Some vs) = comma_split_normalized vs"
  by (cases vs) (simp_all add: split_address_values_def split_address_raws_eq
                   comma_split_normalized_def del: split_address_raws.simps)

text \<open>
  C9 as stated fails: a semicolon does not separate two addresses, and a repeated
  address is returned twice.
\<close>

theorem split_address_values_differs_from_spec:
  "split_address_values (Some [''a@x.com;b@x.com'', ''c@x.com,c@x.com''])
     = [''a@x.com;b@x.com'', ''c@x.com'', ''c@x.com''] \<and>
   spec_split_list [''a@x.com;b@x.com'', ''c@x.com,c@x.com'']
     = [''a@x.com'', ''b@x.com'', ''c@x.com'']"
  by code_simp

subsection \<open>Rejected additions to the sender tables (C10)\<close>

text \<open>
  C10. When the normalised form of the input is empty or has no \<open>@\<close>, both
  \<open>add_vip_sender\<close> and \<open>add_draft_blocked_sender\<close> return false and leave the
  database, hence both sender tables, as it was.
\<close>

theorem add_sender_rejects_invalid_address:
  assumes "normalize_vip_address e = [] \<or> \<not> py_contains (normalize_vip_address e) ''@''"
  shows "add_vip_sender conn e source now = (conn, False) \<and>
         add_draft_blocked_sender conn e source now = (conn, False)"
  using assms by (auto simp: add_vip_sender_def add_draft_blocked_sender_def Let_def)

text \<open>The theorem at the input \<open>Not An Address\<close>, on a store that holds one VIP.\<close>

theorem add_sender_rejects_invalid_address_witness:
  "(normalize_vip_address ''Not An Address'' = [] \<or>
      \<not> py_contains (normalize_vip_address ''Not An Address'') ''@'') \<and>
   add_vip_sender
     \<lparr>triage_state = [], triage_runs = [],
      vip_senders = [\<lparr>vip_email = ''boss@example.com'', vip_added_at = ''2024-01-01T00:00:00Z'',
                      vip_source = ''manual'', vip_note = None\<rparr>],
      draft_blocked_senders = []\<rparr>
     ''Not An Address'' ''manual'' ''2024-01-02T00:00:00Z''
   = (\<lparr>triage_state = [], triage_runs = [],
       vip_senders = [\<lparr>vip_email = ''boss@example.com'', vip_added_at = ''2024-01-01T00:00:00Z'',
                       vip_source = ''manual'', vip_note = None\<rparr>],
       draft_blocked_senders = []\<rparr>, False)"
proof -
  have h: "normalize_vip_address ''Not An Address'' = [] \<or>
      \<not> py_contains (normalize_vip_address ''Not An Address'') ''@''"
    by code_simp
  show ?thesis
    using add_sender_rejects_invalid_address[OF h] h by simp
qed


subsection \<open>Validation of the assistant's answer (C4)\<close>

lemma VALID_PRIORITIES_eq: "VALID_PRIORITIES = {''high'', ''medium'', ''low''}"
  by (auto simp: VALID_PRIORITIES_def PRIORITY_ORDER_def)

text \<open>
  C4, as amended. For every parsed answer whose fields are ASCII text: when its priority, stringified, trimmed and
  lowercased, is not one of \<open>high\<close>, \<open>medium\<close>, \<open>low\<close>, the validator raises an
  assistant error; otherwise the result carries that normalised priority; actionable is
  taken as it is when boolean and otherwise holds exactly when its stringified, trimmed,
  lowercased form is one of \<open>1\<close>, \<open>true\<close>, \<open>yes\<close>, \<open>y\<close>; a blank reply text is
  replaced by the fallback reply; a blank reason is replaced by the fixed text
  \<open>Codex triage\<close> and a blank summary by \<open>Email triaged by Codex (priority)\<close>.
  A field that is not blank is kept, trimmed.
\<close>

theorem normalize_codex_triage_result_validation:
  assumes "ascii_parsed parsed"
  shows
  "(py_lower (py_strip (py_str_or_empty (parsed_priority parsed))) \<notin> {''high'', ''medium'', ''low''} \<longrightarrow>
      (\<exists>msg. normalize_codex_triage_result parsed fallback_reply = Inl (CodexClientError msg))) \<and>
   (py_lower (py_strip (py_str_or_empty (parsed_priority parsed))) \<in> {''high'', ''medium'', ''low''} \<longrightarrow>
      (\<exists>r. normalize_codex_triage_result parsed fallback_reply = Inr r \<and>
           res_priority r = py_lower (py_strip (py_str_or_empty (parsed_priority parsed))) \<and>
           res_actionable r =
             (case parsed_actionable parsed of
                JBool b \<Rightarrow> b
              | v \<Rightarrow> py_lower (py_strip (py_str v)) \<in> {''1'', ''true'', ''yes'', ''y''}) \<and>
           res_reason r =
             (if blank (parsed_reason parsed) then ''Codex triage''
              else py_strip (py_str_or_empty (parsed_reason parsed))) \<and>
           res_summary r =
             (if blank (parsed_summary parsed)
              then ''Email triaged by Codex ('' @ res_priority r @ '')''
              else py_strip (py_str_or_empty (parsed_summary parsed))) \<and>
           res_reply_text r =
             (if blank (parsed_reply_text parsed) then fallback_reply
              else py_strip (py_str_or_empty (parsed_reply_text parsed)))))"
  unfolding normalize_codex_triage_result_def VALID_PRIORITIES_eq Let_def blank_def py_or_def
  by (simp split: jval.splits)

text \<open>The theorem on an accepted and on a rejected answer.\<close>

theorem normalize_codex_triage_result_validation_witness:
  "ascii_parsed
     \<lparr>parsed_priority = JStr '' Medium '', parsed_actionable = JStr ''Yes'',
      parsed_reason = JStr '' asks for a review '', parsed_summary = JNull,
      parsed_reply_text = JStr []\<rparr> \<and>
   ascii_parsed
     \<lparr>parsed_priority = JStr ''urgent'', parsed_actionable = JBool True,
      parsed_reason = JNull, parsed_summary = JNull, parsed_reply_text = JNull\<rparr> \<and>
   py_lower (py_strip (py_str_or_empty (JStr '' Medium ''))) \<in> {''high'', ''medium'', ''low''} \<and>
   (\<exists>r. normalize_codex_triage_result
     \<lparr>parsed_priority = JStr '' Medium '', parsed_actionable = JStr ''Yes'',
      parsed_reason = JStr '' asks for a review '', parsed_summary = JNull,
      parsed_reply_text = JStr []\<rparr> ''Thanks, will do.'' = Inr r \<and>
      res_priority r = ''medium'' \<and> res_actionable r \<and>
      res_reason r = ''asks for a review'' \<and>
      res_summary r = ''Email triaged by Codex (medium)'' \<and>
      res_reply_text r = ''Thanks, will do.'') \<and>
   py_lower (py_strip (py_str_or_empty (JStr ''urgent''))) \<notin> {''high'', ''medium'', ''low''} \<and>
   (\<exists>msg. normalize_codex_triage_result
     \<lparr>parsed_priority = JStr ''urgent'', parsed_actionable = JBool True,
      parsed_reason = JNull, parsed_summary = JNull, parsed_reply_text = JNull\<rparr> ''Thanks, will do.''
     = Inl (CodexClientError msg))"
proof -
  let ?p = "\<lparr>parsed_priority = JStr '' Medium '', parsed_actionable = JStr ''Yes'',
      parsed_reason = JStr '' asks for a review '', parsed_summary = JNull,
      parsed_reply_text = JStr []\<rparr>"
  let ?q = "\<lparr>parsed_priority = JStr ''urgent'', parsed_actionable = JBool True,
      parsed_reason = JNull, parsed_summary = JNull, parsed_reply_text = JNull\<rparr>"
  have ap: "ascii_parsed ?p" and aq: "ascii_parsed ?q"
    by code_simp+
  have pm: "py_lower (py_strip (py_str_or_empty (JStr '' Medium ''))) = ''medium''"
    by code_simp
  have h: "py_lower (py_strip (py_str_or_empty (JStr '' Medium ''))) \<in> {''high'', ''medium'', ''low''}"
    unfolding pm by simp
  have act: "py_lower (py_strip (py_str (JStr ''Yes''))) \<in> {''1'', ''true'', ''yes'', ''y''}"
    by code_simp
  have rs: "\<not> blank (JStr '' asks for a review '')"
           "py_strip (py_str_or_empty (JStr '' asks for a review '')) = ''asks for a review''"
           "blank JNull" "blank (JStr [])"
    by code_simp+
  have g: "py_lower (py_strip (py_str_or_empty (JStr ''urgent''))) \<notin> {''high'', ''medium'', ''low''}"
    by code_simp
  have a: "\<exists>r. normalize_codex_triage_result ?p ''Thanks, will do.'' = Inr r \<and>
      res_priority r = ''medium'' \<and> res_actionable r \<and>
      res_reason r = ''asks for a review'' \<and>
      res_summary r = ''Email triaged by Codex (medium)'' \<and>
      res_reply_text r = ''Thanks, will do.''"
    using normalize_codex_triage_result_validation[OF ap, of "''Thanks, will do.''"] h pm act rs
    by auto
  have b: "\<exists>msg. normalize_codex_triage_result ?q ''Thanks, will do.'' = Inl (CodexClientError msg)"
    using normalize_codex_triage_result_validation[OF aq, of "''Thanks, will do.''"] g by simp
  show ?thesis using ap aq h a g b by blast
qed

text \<open>
  C4 as stated fails. The priority \<open>HIGH\<close> is not exactly one of the three values and
  is accepted; a blank reason and a missing summary are not replaced by the reason and
  summary of the rules, neither by the validator nor by its caller.
\<close>

theorem normalize_codex_triage_result_lenient:
  "''HIGH'' \<notin> {''high'', ''medium'', ''low''} \<and>
   normalize_codex_triage_result
     \<lparr>parsed_priority = JStr ''HIGH'', parsed_actionable = JBool True,
      parsed_reason = JStr '' '', parsed_summary = JNull,
      parsed_reply_text = JStr []\<rparr> ''fallback reply''
   = Inr \<lparr>res_priority = ''high'', res_actionable = True, res_reason = ''Codex triage'',
          res_summary = ''Email triaged by Codex (high)'', res_reply_text = ''fallback reply'',
          res_source = ''codex''\<rparr> \<and>
   apply_codex_intelligence
     \<lparr>email_id = ''m1'', email_from = [], email_to = [], email_cc = [],
      email_subject = ''Status'', email_preview = [], email_bodyValues = [],
      email_textBody = [], email_receivedAt = []\<rparr>
     \<lparr>mail_sender_emails = SenderEmailsAbsent, triage_urgent_keywords = [],
      triage_vip_frequency_threshold = None, drafting_signature = []\<rparr>
     \<lparr>auto_draft = None, draft_actionable_only = None, min_priority_for_draft = None,
      auto_archive_priorities = [], reply_all = None, codex_fallback_to_rules = None\<rparr>
     (Some (\<lambda>_ _ _ _ _.
        Inr \<lparr>parsed_priority = JStr ''HIGH'', parsed_actionable = JBool True,
             parsed_reason = JStr '' '', parsed_summary = JNull,
             parsed_reply_text = JStr []\<rparr>))
     ''low'' False ''default low-priority classification''
     ''From unknown sender about (no subject)'' ''fallback reply''
   = Inr (''high'', True, ''[codex] Codex triage'', ''Email triaged by Codex (high)'',
          ''fallback reply'', ''codex'')"
  by code_simp



subsection \<open>Rule classifier (C2)\<close>

lemma py_startswith_single: "py_startswith (x # xs) [c] \<longleftrightarrow> x = c"
  by (simp add: py_startswith_def)

lemma py_contains_single: "py_contains s [c] \<longleftrightarrow> c \<in> set s"
  by (induction s) (auto simp: py_startswith_single)

lemma add_identities_set:
  "add_identities raw_values ids =
     ids \<union> {n. n \<noteq> [] \<and> n \<in> normalize_vip_address ` set raw_values}"
  unfolding add_identities_def
  by (induction raw_values arbitrary: ids) (auto simp: Let_def)

lemma fold_add_identities_no_empty:
  "[] \<notin> ids \<Longrightarrow> [] \<notin> fold (\<lambda>v ids. add_identities (delimited_parts v) ids) vs ids"
  by (induction vs arbitrary: ids) (auto simp: add_identities_set)

lemma configured_sender_identities_no_empty: "[] \<notin> configured_sender_identities cfg"
  unfolding configured_sender_identities_def
  by (auto split: sender_emails_setting.splits simp: add_identities_set fold_add_identities_no_empty)

lemma targets_loop_iff:
  "targets_loop rs ids \<longleftrightarrow>
     (\<exists>r \<in> set rs. case r of None \<Rightarrow> False
        | Some p \<Rightarrow> normalize_vip_address (person_email p) \<noteq> [] \<and>
                    normalize_vip_address (person_email p) \<in> ids)"
  by (induction rs ids rule: targets_loop.induct) (auto simp: Let_def)

lemma email_targets_sender_identity_iff:
  assumes "[] \<notin> ids"
  shows "email_targets_sender_identity e ids include_cc \<longleftrightarrow>
     (\<exists>r \<in> set (email_to e @ (if include_cc then email_cc e else [])).
        case r of None \<Rightarrow> False | Some p \<Rightarrow> normalize_vip_address (person_email p) \<in> ids)"
proof (cases "ids = {}")
  case True
  then show ?thesis
    by (auto simp: email_targets_sender_identity_def split: option.splits)
next
  case False
  have "\<And>p. normalize_vip_address (person_email p) \<in> ids \<Longrightarrow>
            normalize_vip_address (person_email p) \<noteq> []"
    using assms by auto
  then show ?thesis
    using False
    unfolding email_targets_sender_identity_def Let_def targets_loop_iff
    by (auto split: option.splits)
qed
















subsection \<open>Draft policy (C1)\<close>

lemma mailstore_identity_step:
  "(case client_session client of
      Inl exc \<Rightarrow> {}
    | Inr accounts \<Rightarrow>
        let acct = (case map_of accounts (client_account_id client) of
                      Some a \<Rightarrow> a
                    | None \<Rightarrow> \<lparr>account_email = [], account_emailAddress = []\<rparr>);
            addr = py_lower (py_strip
                     (py_or (py_or (account_email acct) (account_emailAddress acct)) []))
        in if addr \<noteq> [] \<and> py_contains addr ''@'' then insert addr {} else {})
   = (case mailstore_account_email client of Some a \<Rightarrow> {a} | None \<Rightarrow> {})"
  by (auto simp: mailstore_account_email_def Let_def py_or_def py_contains_single
        py_strip_def py_lstrip_def py_rstrip_def py_lower_def
      split: sum.splits option.splits)

lemma mailstore_account_email_nonempty: "mailstore_account_email client = Some a \<Longrightarrow> a \<noteq> []"
  by (auto simp: mailstore_account_email_def Let_def split: sum.splits option.splits if_splits)

lemma spec_draft_identities_no_empty: "[] \<notin> spec_draft_identities cfg client"
  using configured_sender_identities_no_empty[of cfg]
  by (auto simp: spec_draft_identities_def split: option.splits
      dest: mailstore_account_email_nonempty)

lemma is_drafted_to_self_eq:
  "is_drafted_to_self e cfg client = spec_to_includes e (spec_draft_identities cfg client)"
proof -
  let ?ids = "spec_draft_identities cfg client"
  have ids: "(let identities = configured_sender_identities cfg in
              if identities = {} then
                 (case client_session client of
                    Inl exc \<Rightarrow> identities
                  | Inr accounts \<Rightarrow>
                      let acct = (case map_of accounts (client_account_id client) of
                                    Some a \<Rightarrow> a
                                  | None \<Rightarrow> \<lparr>account_email = [], account_emailAddress = []\<rparr>);
                          addr = py_lower (py_strip
                                   (py_or (py_or (account_email acct) (account_emailAddress acct)) []))
                      in if addr \<noteq> [] \<and> py_contains addr ''@''
                         then insert addr identities else identities)
               else identities) = ?ids"
    using mailstore_identity_step[of client]
    by (auto simp: spec_draft_identities_def Let_def split: sum.splits)
  have "is_drafted_to_self e cfg client =
        (if email_to e = [] then False
         else if ?ids = {} then False else email_targets_sender_identity e ?ids False)"
    unfolding is_drafted_to_self_def using ids by (simp add: Let_def)
  also have "\<dots> = spec_to_includes e ?ids"
  proof (cases "?ids = {}")
    case True
    then show ?thesis by (auto simp: spec_to_includes_def split: option.splits)
  next
    case False
    then show ?thesis
      by (auto simp: email_targets_sender_identity_iff[OF spec_draft_identities_no_empty]
          spec_to_includes_def)
  qed
  finally show ?thesis .
qed

lemma priority_rank_level: "level_of p = Some l \<Longrightarrow> priority_rank p = Some (Suc (level_rank l))"
  by (auto simp: level_of_def priority_rank_def PRIORITY_ORDER_def split: if_splits)

lemma priority_rank_none: "level_of p = None \<Longrightarrow> priority_rank p = None"
  by (auto simp: level_of_def priority_rank_def PRIORITY_ORDER_def split: if_splits)

lemma threshold_eq:
  "py_get (priority_rank (py_lower (py_strip (py_get (min_priority_for_draft auto) ''high''))))
          (the (priority_rank ''high''))
   = Suc (level_rank (spec_min_priority auto))"
proof (cases "min_priority_for_draft auto")
  case None
  then show ?thesis
    by (simp add: py_get_def spec_min_priority_def priority_rank_def PRIORITY_ORDER_def
          py_strip_def py_lstrip_def py_rstrip_def py_lower_def py_isspace_def lower_char_def)
next
  case (Some m)
  show ?thesis
  proof (cases "level_of (py_lower (py_strip m))")
    case None
    then show ?thesis using Some
      by (simp add: py_get_def spec_min_priority_def priority_rank_none)
         (simp add: priority_rank_def PRIORITY_ORDER_def)
  next
    case (Some l)
    then show ?thesis using \<open>min_priority_for_draft auto = Some m\<close>
      by (simp add: py_get_def spec_min_priority_def priority_rank_level)
  qed
qed

lemma existing_draft_id_of_None_iff:
  "existing_draft_id_of existing = None \<longleftrightarrow>
     \<not> (\<exists>row d. existing = Some row \<and> st_draft_id row = Some d \<and> d \<noteq> [])"
  by (auto simp: existing_draft_id_of_def split: option.splits)

text \<open>
  C1. \<open>should_create_draft\<close>, called as the cycle calls it (its \<open>has_existing_draft\<close>
  argument is "a non-empty draft id is stored and reprocess is off"), is true if and only
  if: apply mode is on; \<open>auto_draft\<close> is on (default on); the sender's address is not in
  the draft-block set; no non-empty draft id is stored for the message, unless reprocess;
  a \<open>to\<close> recipient (cc excluded) is one of the configured sender identities, or, when
  none is configured, the mail store's account address, and no draft when neither is
  available; the priority is at least \<open>min_priority_for_draft\<close> in the order
  low < medium < high (default high); and actionable holds when \<open>draft_actionable_only\<close>
  is on (default on). The draft-block set holds addresses, so not the empty string, and
  the priority is one of the three values.
\<close>

theorem should_create_draft_iff:
  assumes "[] \<notin> blocked_sender_emails"
      and "level_of priority = Some lvl"
  shows "should_create_draft apply_mode auto blocked_sender_emails priority actionable
           (existing_draft_id_of existing \<noteq> None \<and> \<not> reprocess) sender_email e client cfg
         \<longleftrightarrow>
           apply_mode \<and>
           py_get (auto_draft auto) True \<and>
           sender_email \<notin> blocked_sender_emails \<and>
           (reprocess \<or>
              \<not> (\<exists>row d. existing = Some row \<and> st_draft_id row = Some d \<and> d \<noteq> [])) \<and>
           spec_to_includes e (spec_draft_identities cfg client) \<and>
           level_rank (spec_min_priority auto) \<le> level_rank lvl \<and>
           (py_get (draft_actionable_only auto) True \<longrightarrow> actionable)"
proof -
  have cur: "py_get (priority_rank priority) (the (priority_rank ''low'')) = Suc (level_rank lvl)"
    using assms(2) by (simp add: priority_rank_level py_get_def)
  have blk: "(sender_email \<noteq> [] \<and> sender_email \<in> blocked_sender_emails)
             \<longleftrightarrow> sender_email \<in> blocked_sender_emails"
    using assms(1) by auto
  show ?thesis
    unfolding should_create_draft_def Let_def threshold_eq cur blk is_drafted_to_self_eq
      existing_draft_id_of_None_iff[symmetric]
    by auto
qed

text \<open>
  The theorem on a message sent to a configured identity from an unblocked sender, with
  default automation settings, and on the same message when the identity is only in cc.
\<close>

theorem should_create_draft_iff_witness:
  "[] \<notin> {''spam@example.com''} \<and> level_of ''high'' = Some High \<and>
   should_create_draft True
     \<lparr>auto_draft = None, draft_actionable_only = None, min_priority_for_draft = None,
      auto_archive_priorities = [''low'', ''medium''], reply_all = None,
      codex_fallback_to_rules = None\<rparr>
     {''spam@example.com''} ''high'' True
     (existing_draft_id_of None \<noteq> None \<and> \<not> False) ''alice@example.org''
     \<lparr>email_id = ''m1'',
      email_from = [\<lparr>person_name = ''Alice'', person_email = ''alice@example.org''\<rparr>],
      email_to = [Some \<lparr>person_name = ''Me'', person_email = ''Me@Example.com''\<rparr>],
      email_cc = [], email_subject = ''Can you review?'', email_preview = [],
      email_bodyValues = [], email_textBody = [], email_receivedAt = []\<rparr>
     \<lparr>client_session = Inl (JMAPError ''offline''), client_account_id = [],
      move_email_to_archive = (\<lambda>_. Inr ()),
      create_reply_draft_from_email = (\<lambda>_ _ _. Inr ''d-1'')\<rparr>
     \<lparr>mail_sender_emails = SenderEmailsList [''me@example.com''],
      triage_urgent_keywords = [], triage_vip_frequency_threshold = None,
      drafting_signature = []\<rparr> \<and>
   \<not> should_create_draft True
     \<lparr>auto_draft = None, draft_actionable_only = None, min_priority_for_draft = None,
      auto_archive_priorities = [''low'', ''medium''], reply_all = None,
      codex_fallback_to_rules = None\<rparr>
     {''spam@example.com''} ''high'' True
     (existing_draft_id_of None \<noteq> None \<and> \<not> False) ''alice@example.org''
     \<lparr>email_id = ''m1'',
      email_from = [\<lparr>person_name = ''Alice'', person_email = ''alice@example.org''\<rparr>],
      email_to = [Some \<lparr>person_name = ''Other'', person_email = ''other@example.com''\<rparr>],
      email_cc = [Some \<lparr>person_name = ''Me'', person_email = ''me@example.com''\<rparr>],
      email_subject = ''Can you review?'', email_preview = [],
      email_bodyValues = [], email_textBody = [], email_receivedAt = []\<rparr>
     \<lparr>client_session = Inl (JMAPError ''offline''), client_account_id = [],
      move_email_to_archive = (\<lambda>_. Inr ()),
      create_reply_draft_from_email = (\<lambda>_ _ _. Inr ''d-1'')\<rparr>
     \<lparr>mail_sender_emails = SenderEmailsList [''me@example.com''],
      triage_urgent_keywords = [], triage_vip_frequency_threshold = None,
      drafting_signature = []\<rparr>"
proof -
  let ?auto = "\<lparr>auto_draft = None, draft_actionable_only = None, min_priority_for_draft = None,
      auto_archive_priorities = [''low'', ''medium''], reply_all = None,
      codex_fallback_to_rules = None\<rparr>"
  let ?client = "\<lparr>client_session = Inl (JMAPError ''offline''), client_account_id = [],
      move_email_to_archive = (\<lambda>_. Inr ()),
      create_reply_draft_from_email = (\<lambda>_ _ _. Inr ''d-1'')\<rparr>"
  let ?cfg = "\<lparr>mail_sender_emails = SenderEmailsList [''me@example.com''],
      triage_urgent_keywords = [], triage_vip_frequency_threshold = None,
      drafting_signature = []\<rparr>"
  let ?to_me = "\<lparr>email_id = ''m1'',
      email_from = [\<lparr>person_name = ''Alice'', person_email = ''alice@example.org''\<rparr>],
      email_to = [Some \<lparr>person_name = ''Me'', person_email = ''Me@Example.com''\<rparr>],
      email_cc = [], email_subject = ''Can you review?'', email_preview = [],
      email_bodyValues = [], email_textBody = [], email_receivedAt = []\<rparr>"
  let ?cc_me = "\<lparr>email_id = ''m1'',
      email_from = [\<lparr>person_name = ''Alice'', person_email = ''alice@example.org''\<rparr>],
      email_to = [Some \<lparr>person_name = ''Other'', person_email = ''other@example.com''\<rparr>],
      email_cc = [Some \<lparr>person_name = ''Me'', person_email = ''me@example.com''\<rparr>],
      email_subject = ''Can you review?'', email_preview = [],
      email_bodyValues = [], email_textBody = [], email_receivedAt = []\<rparr>"
  have h1: "[] \<notin> {''spam@example.com''}" by simp
  have h2: "level_of ''high'' = Some High" by (simp add: level_of_def)
  have ids: "spec_draft_identities ?cfg ?client = {''me@example.com''}" by code_simp
  have to_me: "spec_to_includes ?to_me {''me@example.com''}" by code_simp
  have cc_me: "\<not> spec_to_includes ?cc_me {''me@example.com''}" by code_simp
  have minp: "spec_min_priority ?auto = High" by (simp add: spec_min_priority_def)
  have a: "should_create_draft True ?auto {''spam@example.com''} ''high'' True
     (existing_draft_id_of None \<noteq> None \<and> \<not> False) ''alice@example.org'' ?to_me ?client ?cfg"
    unfolding should_create_draft_iff[OF h1 h2] ids minp
    using to_me by (simp add: py_get_def)
  have b: "\<not> should_create_draft True ?auto {''spam@example.com''} ''high'' True
     (existing_draft_id_of None \<noteq> None \<and> \<not> False) ''alice@example.org'' ?cc_me ?client ?cfg"
    unfolding should_create_draft_iff[OF h1 h2] ids
    using cc_me by simp
  show ?thesis using h1 h2 a b by blast
qed

text \<open>
  The two hypotheses hold in the running system: the draft-block set read from a table
  of addresses has no empty string, additions keep the table one of addresses, and the
  priorities that reach the policy, from the classifier or from a validated answer of the
  assistant, are among the three values.
\<close>

lemma dropWhile_keeps: "x \<in> set xs \<Longrightarrow> \<not> P x \<Longrightarrow> x \<in> set (dropWhile P xs)"
  by (induction xs) auto

lemma py_strip_keeps: "c \<in> set s \<Longrightarrow> \<not> py_isspace c \<Longrightarrow> c \<in> set (py_strip s)"
  unfolding py_strip_def py_rstrip_def py_lstrip_def
  by (simp add: dropWhile_keeps)

lemma at_not_space: "\<not> py_isspace CHR ''@''"
  by (simp add: py_isspace_def)

lemma lower_char_at: "lower_char CHR ''@'' = CHR ''@''"
  by (simp add: lower_char_def)

lemma address_survives: "CHR ''@'' \<in> set s \<Longrightarrow> py_lower (py_strip s) \<noteq> []"
proof -
  assume "CHR ''@'' \<in> set s"
  then have "CHR ''@'' \<in> set (py_strip s)" by (rule py_strip_keeps) (rule at_not_space)
  then show ?thesis by (auto simp: py_lower_def)
qed

lemma blocked_set_has_no_empty_address:
  "addresses_only conn \<Longrightarrow> [] \<notin> get_draft_blocked_senders conn"
  unfolding addresses_only_def get_draft_blocked_senders_def list_all_iff
  using address_survives by fastforce

lemma add_draft_blocked_sender_keeps_addresses:
  "addresses_only conn \<Longrightarrow> addresses_only (fst (add_draft_blocked_sender conn e source now))"
  unfolding addresses_only_def add_draft_blocked_sender_def Let_def list_all_iff
  by (auto simp: py_contains_single)

lemma classify_priority_valid: "level_of (fst (classify_priority e cfg vips)) \<noteq> None"
  by (simp add: classify_priority_def Let_def level_of_def)

lemma normalize_codex_triage_result_valid:
  "normalize_codex_triage_result parsed fb = Inr r \<Longrightarrow> level_of (res_priority r) \<noteq> None"
  unfolding normalize_codex_triage_result_def Let_def VALID_PRIORITIES_eq
  by (auto simp: level_of_def split: if_splits)

subsection \<open>Fallback reply with a signature (C7)\<close>

text \<open>
  C7 at a concrete message. With the signature \<open>Bob\<close> configured, the fallback reply
  for a high-priority message about \<open>Budget\<close> is the signature alone: every template
  begins with the word Thanks, which the signature heuristic takes for a closing line,
  so the whole template body is removed before the signature is appended.
\<close>

theorem compose_auto_reply_loses_template:
  "compose_auto_reply
     \<lparr>email_id = ''m1'',
      email_from = [\<lparr>person_name = ''Alice'', person_email = ''alice@example.org''\<rparr>],
      email_to = [Some \<lparr>person_name = ''Me'', person_email = ''me@example.com''\<rparr>],
      email_cc = [], email_subject = ''Budget'', email_preview = [],
      email_bodyValues = [], email_textBody = [], email_receivedAt = []\<rparr>
     ''high''
     \<lparr>mail_sender_emails = SenderEmailsAbsent, triage_urgent_keywords = [],
      triage_vip_frequency_threshold = None, drafting_signature = ''Bob''\<rparr>
   = ''Bob'' \<and>
   spec_high_reply ''Budget'' ''Bob'' \<noteq> ''Bob''"
  by code_simp

lemma lf_linebreak: "py_linebreak CHR 0x0A" "CHR 0x0A \<noteq> CHR 0x0D"
  by (simp_all add: py_linebreak_def)

lemma cr_linebreak: "py_linebreak CHR 0x0D"
  by (simp add: py_linebreak_def)

lemma splitlines_from_single:
  "single_line a \<Longrightarrow>
   splitlines_from a cur = (if rev cur @ a = [] then [] else [rev cur @ a])"
proof (induction a arbitrary: cur)
  case Nil
  then show ?case by simp
next
  case (Cons c cs)
  then have nb: "\<not> py_linebreak c" and sl: "single_line cs" by (simp_all add: single_line_def)
  show ?case
  proof (cases cs)
    case Nil
    then show ?thesis using nb by simp
  next
    case (Cons d ds)
    have "c \<noteq> CHR 0x0D" using nb cr_linebreak by auto
    then have "splitlines_from (c # d # ds) cur = splitlines_from (d # ds) (c # cur)"
      using nb by simp
    then show ?thesis using Cons.IH[OF sl, of "c # cur"] Cons by simp
  qed
qed

lemma splitlines_from_break:
  "single_line a \<Longrightarrow>
   splitlines_from (a @ CHR 0x0A # rest) cur = (rev cur @ a) # splitlines_from rest []"
proof (induction a arbitrary: cur)
  case Nil
  show ?case using lf_linebreak by (cases rest) simp_all
next
  case (Cons c cs)
  then have nb: "\<not> py_linebreak c" and sl: "single_line cs" by (simp_all add: single_line_def)
  have ncr: "c \<noteq> CHR 0x0D" using nb cr_linebreak by auto
  obtain d ds where t: "cs @ CHR 0x0A # rest = d # ds" by (cases "cs @ CHR 0x0A # rest") auto
  have "splitlines_from (c # d # ds) cur = splitlines_from (d # ds) (c # cur)"
    using nb ncr by simp
  then have "splitlines_from ((c # cs) @ CHR 0x0A # rest) cur =
             splitlines_from (cs @ CHR 0x0A # rest) (c # cur)"
    using t by simp
  then show ?case using Cons.IH[OF sl, of "c # cur"] by simp
qed

lemma splitlines_two_paragraphs:
  assumes "single_line a" "single_line b" "b \<noteq> []"
  shows "py_splitlines (a @ [CHR 0x0A, CHR 0x0A] @ b) = [a, [], b]"
proof -
  have "splitlines_from (a @ CHR 0x0A # CHR 0x0A # b) [] = a # splitlines_from (CHR 0x0A # b) []"
    using splitlines_from_break[OF assms(1), of "CHR 0x0A # b" "[]"] by simp
  also have "splitlines_from (CHR 0x0A # b) [] = [] # splitlines_from b []"
    using splitlines_from_break[of "[]" b "[]"] by (simp add: single_line_def)
  also have "splitlines_from b [] = [b]"
    using splitlines_from_single[OF assms(2), of "[]"] assms(3) by simp
  finally show ?thesis by (simp add: py_splitlines_def)
qed


lemma py_strip_Nil: "py_strip [] = []"
  by (simp add: py_strip_def py_lstrip_def py_rstrip_def)

lemma py_rstrip_Nil: "py_rstrip [] = []"
  by (simp add: py_rstrip_def)

lemma no_marker_empty: "\<not> (\<exists>marker \<in> set signature_markers. py_startswith [] marker)"
  by (simp add: signature_markers_def py_startswith_def)

lemma strip_trailing_signature_two_paragraphs:
  assumes a: "single_line a" and b: "single_line b" "b \<noteq> []"
      and sa: "py_strip a \<noteq> ''--''" and sb: "py_strip b \<noteq> ''--''"
      and ma: "\<exists>marker \<in> set signature_markers. py_startswith (py_lower (py_strip a)) marker"
      and mb: "\<not> (\<exists>marker \<in> set signature_markers. py_startswith (py_lower (py_strip b)) marker)"
  shows "strip_trailing_signature (a @ [CHR 0x0A, CHR 0x0A] @ b) = []"
proof -
  let ?lines = "[a, [], b]"
  have lines: "py_splitlines (a @ [CHR 0x0A, CHR 0x0A] @ b) = ?lines"
    using a b by (rule splitlines_two_paragraphs)
  have three: "length ?lines = Suc (Suc (Suc 0))" by simp
  have sep: "separator_loop ?lines (Suc (Suc (Suc 0))) = None"
    using sa sb by (simp add: Let_def py_strip_Nil)
  have lowNil: "py_lower [] = []" by (simp add: py_lower_def)
  have mark: "marker_loop ?lines (Suc (Suc (Suc 0))) = Some []"
    using ma mb no_marker_empty
    by (simp add: Let_def py_strip_Nil lowNil py_rstrip_Nil)
  show ?thesis
    unfolding strip_trailing_signature_def lines Let_def three
    using sep mark by simp
qed

lemma py_strip_idem: "py_strip (py_strip s) = py_strip s"
  using py_strip_stripped_l[of s] py_strip_stripped_r[of s] by (auto simp: py_strip_id_iff)

lemma append_drafting_signature_only:
  assumes "py_strip (drafting_signature cfg) \<noteq> []"
      and "py_rstrip body = body" and "body \<noteq> []"
      and "strip_trailing_signature body = []"
  shows "append_drafting_signature body cfg = py_strip (drafting_signature cfg)"
  using assms
  by (simp add: append_drafting_signature_def Let_def py_endswith_def py_strip_idem)

lemma single_line_append: "single_line (x @ y) \<longleftrightarrow> single_line x \<and> single_line y"
  by (simp add: single_line_def)

lemma single_line_strip: "single_line s \<Longrightarrow> single_line (py_strip s)"
  using set_py_strip[of s] by (auto simp: single_line_def list_all_iff)


lemma thanks_line:
  assumes "single_line rest" "single_line subject" "single_line suffix"
      and "suffix \<noteq> []" "last suffix = CHR ''.''"
  defines "a \<equiv> ''Thanks '' @ rest @ dquote @ subject @ dquote @ suffix"
  shows "single_line a" and "py_strip a \<noteq> ''--''"
    and "\<exists>marker \<in> set signature_markers. py_startswith (py_lower (py_strip a)) marker"
proof -
  show "single_line a"
    using assms(1-3) unfolding a_def single_line_append
    by (simp add: single_line_def py_linebreak_def dquote_def)
  have hd: "hd a = CHR ''T''" by (simp add: a_def)
  have ne: "a \<noteq> []" by (simp add: a_def)
  have last: "last a = CHR ''.''" using assms(4,5) by (simp add: a_def)
  have st: "py_strip a = a"
    unfolding py_strip_id_iff hd last by (simp add: py_isspace_def)
  show "py_strip a \<noteq> ''--''" unfolding st by (simp add: a_def)
  have "py_startswith (py_lower a) ''thanks''"
    by (simp add: a_def py_startswith_def py_lower_def lower_char_def)
  moreover have "''thanks'' \<in> set signature_markers" by (simp add: signature_markers_def)
  ultimately show "\<exists>marker \<in> set signature_markers. py_startswith (py_lower (py_strip a)) marker"
    unfolding st by blast
qed

lemma reply_with_signature_only:
  assumes sig: "py_strip (drafting_signature cfg) \<noteq> []"
      and a: "single_line rest" "single_line subject" "single_line suffix"
             "suffix \<noteq> []" "last suffix = CHR ''.''"
      and b: "single_line b" "b \<noteq> []" "last b = CHR ''.''" "py_strip b \<noteq> ''--''"
             "\<not> (\<exists>marker \<in> set signature_markers. py_startswith (py_lower (py_strip b)) marker)"
  shows "append_drafting_signature
           ((''Thanks '' @ rest @ dquote @ subject @ dquote @ suffix) @ [CHR 0x0A, CHR 0x0A] @ b) cfg
         = py_strip (drafting_signature cfg)"
proof -
  let ?a = "''Thanks '' @ rest @ dquote @ subject @ dquote @ suffix"
  let ?body = "?a @ [CHR 0x0A, CHR 0x0A] @ b"
  note t = thanks_line[OF a]
  have s: "strip_trailing_signature ?body = []"
    by (rule strip_trailing_signature_two_paragraphs[OF t(1) b(1,2) t(2) b(4) t(3) b(5)])
  have ne: "?body \<noteq> []" by simp
  have "last ?body = CHR ''.''" using b(2,3) by simp
  then have r: "py_rstrip ?body = ?body"
    unfolding py_rstrip_id_iff by (simp add: py_isspace_def)
  show ?thesis by (rule append_drafting_signature_only[OF sig r ne s])
qed

lemma second_line_high:
  "single_line (''I'' @ apostrophe @ ''ll follow up shortly with a full response.'')"
  "''I'' @ apostrophe @ ''ll follow up shortly with a full response.'' \<noteq> []"
  "last (''I'' @ apostrophe @ ''ll follow up shortly with a full response.'') = CHR ''.''"
  "py_strip (''I'' @ apostrophe @ ''ll follow up shortly with a full response.'') \<noteq> ''--''"
  "\<not> (\<exists>marker \<in> set signature_markers.
        py_startswith (py_lower (py_strip (''I'' @ apostrophe @ ''ll follow up shortly with a full response.''))) marker)"
  by code_simp+

lemma second_line_medium:
  "single_line (''I'' @ apostrophe @ ''ll send a full response after I'' @ apostrophe @ ''ve gone through the details.'')"
  "''I'' @ apostrophe @ ''ll send a full response after I'' @ apostrophe @ ''ve gone through the details.'' \<noteq> []"
  "last (''I'' @ apostrophe @ ''ll send a full response after I'' @ apostrophe @ ''ve gone through the details.'') = CHR ''.''"
  "py_strip (''I'' @ apostrophe @ ''ll send a full response after I'' @ apostrophe @ ''ve gone through the details.'') \<noteq> ''--''"
  "\<not> (\<exists>marker \<in> set signature_markers.
        py_startswith (py_lower (py_strip (''I'' @ apostrophe @ ''ll send a full response after I'' @ apostrophe @ ''ve gone through the details.''))) marker)"
  by code_simp+

lemma second_line_low:
  "single_line (''I'' @ apostrophe @ ''ve received it and will follow up if anything is needed from my side.'')"
  "''I'' @ apostrophe @ ''ve received it and will follow up if anything is needed from my side.'' \<noteq> []"
  "last (''I'' @ apostrophe @ ''ve received it and will follow up if anything is needed from my side.'') = CHR ''.''"
  "py_strip (''I'' @ apostrophe @ ''ve received it and will follow up if anything is needed from my side.'') \<noteq> ''--''"
  "\<not> (\<exists>marker \<in> set signature_markers.
        py_startswith (py_lower (py_strip (''I'' @ apostrophe @ ''ve received it and will follow up if anything is needed from my side.''))) marker)"
  by code_simp+

text \<open>
  The loss is general: whenever a signature is configured, the fallback reply for any
  priority and any subject without line break is the signature alone.
\<close>

lemma compose_auto_reply_signature_only:
  assumes sig: "py_strip (drafting_signature cfg) \<noteq> []"
      and subj: "single_line (email_subject e)"
  shows "compose_auto_reply e priority cfg = py_strip (drafting_signature cfg)"
proof -
  let ?subject = "py_strip (py_or (email_subject e) ''your message'')"
  have "single_line (py_or (email_subject e) ''your message'')"
    using subj by (simp add: py_or_def single_line_def py_linebreak_def)
  then have s: "single_line ?subject" by (rule single_line_strip)
  have hi: "compose_auto_reply e ''high'' cfg = py_strip (drafting_signature cfg)"
    using reply_with_signature_only[OF sig _ s _ _ _ second_line_high,
        of "''for your email about ''" "''. I received this and I'' @ apostrophe @ ''m prioritizing it now.''"]
    by (simp add: compose_auto_reply_def Let_def single_line_def py_linebreak_def apostrophe_def)
  have me: "compose_auto_reply e ''medium'' cfg = py_strip (drafting_signature cfg)"
    using reply_with_signature_only[OF sig _ s _ _ _ second_line_medium,
        of "''for the note about ''" "''. I received it and will review it shortly.''"]
    by (simp add: compose_auto_reply_def Let_def single_line_def py_linebreak_def apostrophe_def)
  have lo: "priority \<noteq> ''high'' \<Longrightarrow> priority \<noteq> ''medium'' \<Longrightarrow>
            compose_auto_reply e priority cfg = py_strip (drafting_signature cfg)"
    using reply_with_signature_only[OF sig _ s _ _ _ second_line_low,
        of "''for sharing this update about ''" "''.''"]
    by (simp add: compose_auto_reply_def Let_def single_line_def py_linebreak_def apostrophe_def)
  show ?thesis using hi me lo by blast
qed

subsection \<open>VIP auto-promotion (C3)\<close>

lemma py_lower_None: "py_lower ''None'' \<noteq> ''high''"
  by code_simp

lemma maybe_auto_promote_eq:
  "maybe_auto_promote_vip_from_high_frequency conn cfg sender_email previous_priority
      current_priority now =
   (if spec_promotes conn cfg sender_email previous_priority current_priority
    then (conn\<lparr>vip_senders := upsert_vip_row (vip_senders conn)
                  (promoted_vip_row conn sender_email now)\<rparr>, True)
    else (conn, False))"
proof (cases "triage_vip_frequency_threshold cfg")
  case None
  then show ?thesis
    by (simp add: maybe_auto_promote_vip_from_high_frequency_def spec_promotes_def
          get_vip_frequency_threshold_def)
next
  case (Some T)
  define n where "n = normalize_vip_address sender_email"
  have at: "n = [] \<or> \<not> py_contains n ''@'' \<longleftrightarrow> CHR ''@'' \<notin> set n"
    by (auto simp: py_contains_single)
  have th: "get_vip_frequency_threshold cfg \<le> 0 \<longleftrightarrow> \<not> T \<ge> 1"
    using Some by (auto simp: get_vip_frequency_threshold_def)
  have th2: "T \<ge> 1 \<Longrightarrow> get_vip_frequency_threshold cfg = T"
    using Some by (auto simp: get_vip_frequency_threshold_def)
  have prev: "py_lower (case previous_priority of None \<Rightarrow> ''None'' | Some p \<Rightarrow> p) = ''high''
        \<longleftrightarrow> \<not> (case previous_priority of None \<Rightarrow> True | Some p \<Rightarrow> py_lower p \<noteq> ''high'')"
    using py_lower_None by (cases previous_priority) auto
  show ?thesis
  proof (cases "T \<ge> 1")
    case False
    then show ?thesis
      using Some th
      by (simp add: maybe_auto_promote_vip_from_high_frequency_def spec_promotes_def)
  next
    case True
    have lt: "\<And>c::nat. int c + 1 < T \<longleftrightarrow> \<not> (T \<le> int c + 1)" by auto
    show ?thesis
      unfolding maybe_auto_promote_vip_from_high_frequency_def spec_promotes_def
        promoted_vip_row_def Let_def n_def[symmetric] VIP_SOURCE_AUTO_def
      using True Some
      by (simp only: th th2 at prev lt option.case if_True if_False simp_thms split: if_splits)
         (simp add: th2)
  qed
qed

subsection \<open>The loop body\<close>

lemma perform_action_cases:
  obtains
    (archived)
      "perform_action client cfg auto apply_mode reprocess blocked e existing_draft_id
         priority actionable reply_text sender_email st =
       (''archived'', (if existing_draft_id \<noteq> None \<and> \<not> reprocess then existing_draft_id else None), [],
        st\<lparr>cs_trace := cs_trace st @ [ArchiveCall (email_id e)],
           cs_summary := (cs_summary st)\<lparr>archived_count := archived_count (cs_summary st) + 1\<rparr>\<rparr>)"
  | (drafted) new_id where
      "perform_action client cfg auto apply_mode reprocess blocked e existing_draft_id
         priority actionable reply_text sender_email st =
       (''drafted'', Some new_id, [],
        st\<lparr>cs_trace := cs_trace st @ [DraftCall (email_id e)],
           cs_summary := (cs_summary st)\<lparr>drafted_count := drafted_count (cs_summary st) + 1\<rparr>\<rparr>)"
  | (failed) d msg ev where
      "perform_action client cfg auto apply_mode reprocess blocked e existing_draft_id
         priority actionable reply_text sender_email st =
       (''error'', d, msg,
        st\<lparr>cs_trace := cs_trace st @ [ev],
           cs_summary := (cs_summary st)\<lparr>error_count := error_count (cs_summary st) + 1\<rparr>\<rparr>)"
  | (triaged)
      "perform_action client cfg auto apply_mode reprocess blocked e existing_draft_id
         priority actionable reply_text sender_email st =
       (''triaged'', (if existing_draft_id \<noteq> None \<and> \<not> reprocess then existing_draft_id else None), [], st)"
proof (cases "should_archive_priority apply_mode auto priority")
  case True
  show ?thesis
  proof (cases "move_email_to_archive client (email_id e)")
    case (Inl exc)
    with True show ?thesis
      by (intro failed) (simp add: perform_action_def Let_def)
  next
    case (Inr u)
    with True show ?thesis
      by (intro archived) (simp add: perform_action_def Let_def)
  qed
next
  case False
  show ?thesis
  proof (cases "should_create_draft apply_mode auto blocked priority actionable
                (existing_draft_id \<noteq> None \<and> \<not> reprocess) sender_email e client cfg")
    case d: True
    show ?thesis
    proof (cases "create_reply_draft_from_email client e reply_text (py_get (reply_all auto) True)")
      case (Inl exc)
      with False d show ?thesis
        by (intro failed) (simp add: perform_action_def Let_def)
    next
      case (Inr new_id)
      with False d show ?thesis
        by (intro drafted) (simp add: perform_action_def Let_def)
    qed
  next
    case d: False
    with False show ?thesis
      by (intro triaged) (simp add: perform_action_def Let_def)
  qed
qed


lemma process_email_no_id:
  assumes "email_id e = []"
  shows "process_email client cfg auto codex apply_mode reprocess vips blocked clock e st =
         Inr (st\<lparr>cs_summary := (cs_summary st)\<lparr>error_count := error_count (cs_summary st) + 1\<rparr>\<rparr>)"
  using assms by (simp add: process_email_def)

lemma process_email_skip:
  assumes "email_id e \<noteq> []"
      and "existing_draft_id_of (get_state_row (cs_db st) (email_id e)) \<noteq> None"
      and "\<not> reprocess"
  shows "process_email client cfg auto codex apply_mode reprocess vips blocked clock e st =
         Inr (skip_drafted (email_id e) (clock (cs_ticks st))
                (get_state_row (cs_db st) (email_id e)) (st\<lparr>cs_ticks := cs_ticks st + 1\<rparr>))"
  using assms by (simp add: process_email_def Let_def)

lemma process_email_processed:
  assumes eid: "email_id e \<noteq> []"
      and ns: "existing_draft_id_of (get_state_row (cs_db st) (email_id e)) = None \<or> reprocess"
      and ok: "process_email client cfg auto codex apply_mode reprocess vips blocked clock e st = Inr st'"
  obtains rp ra rr rs priority actionable reason summary_line reply_text source conn promoted
          status draft_id error_text st2
  where "classify_priority e cfg vips = (rp, ra, rr, rs)"
    and "apply_codex_intelligence e cfg auto codex rp ra rr rs (compose_auto_reply e rp cfg)
           = Inr (priority, actionable, reason, summary_line, reply_text, source)"
    and "maybe_auto_promote_vip_from_high_frequency (cs_db st) cfg (sender_email_of e)
           (map_option st_priority (get_state_row (cs_db st) (email_id e))) priority
           (clock (cs_ticks st + 1)) = (conn, promoted)"
    and "perform_action client cfg auto apply_mode reprocess blocked e
           (existing_draft_id_of (get_state_row (cs_db st) (email_id e)))
           priority actionable reply_text (sender_email_of e)
           (after_promotion codex e conn promoted st) = (status, draft_id, error_text, st2)"
    and "st' = finish_email e (clock (cs_ticks st)) (get_state_row (cs_db st) (email_id e))
           priority actionable reason summary_line reply_text source (sender_email_of e)
           promoted status draft_id error_text st2"
proof -
  obtain rp ra rr rs where c: "classify_priority e cfg vips = (rp, ra, rr, rs)"
    by (cases "classify_priority e cfg vips") auto
  have nskip: "\<not> (existing_draft_id_of (get_state_row (cs_db st) (email_id e)) \<noteq> None \<and> \<not> reprocess)"
    using ns by auto
  show ?thesis
  proof (cases "apply_codex_intelligence e cfg auto codex rp ra rr rs (compose_auto_reply e rp cfg)")
    case (Inl exc)
    then have "process_email client cfg auto codex apply_mode reprocess vips blocked clock e st = Inl exc"
      using eid nskip c by (simp add: process_email_def Let_def)
    with ok show ?thesis by simp
  next
    case (Inr t)
    obtain priority actionable reason summary_line reply_text source
      where t: "t = (priority, actionable, reason, summary_line, reply_text, source)"
      by (cases t) auto
    obtain conn promoted where m: "maybe_auto_promote_vip_from_high_frequency (cs_db st) cfg (sender_email_of e)
           (map_option st_priority (get_state_row (cs_db st) (email_id e))) priority
           (clock (cs_ticks st + 1)) = (conn, promoted)"
      by (cases "maybe_auto_promote_vip_from_high_frequency (cs_db st) cfg (sender_email_of e)
           (map_option st_priority (get_state_row (cs_db st) (email_id e))) priority
           (clock (cs_ticks st + 1))") auto
    obtain status draft_id error_text st2 where pa: "perform_action client cfg auto apply_mode reprocess blocked e
           (existing_draft_id_of (get_state_row (cs_db st) (email_id e)))
           priority actionable reply_text (sender_email_of e)
           (after_promotion codex e conn promoted st) = (status, draft_id, error_text, st2)"
      by (cases "perform_action client cfg auto apply_mode reprocess blocked e
           (existing_draft_id_of (get_state_row (cs_db st) (email_id e)))
           priority actionable reply_text (sender_email_of e)
           (after_promotion codex e conn promoted st)") auto
    have nskip': "\<not> ((\<exists>y. existing_draft_id_of (get_state_row (cs_db st) (email_id e)) = Some y) \<and> \<not> reprocess)"
      using ns by auto
    have "process_email client cfg auto codex apply_mode reprocess vips blocked clock e st =
          Inr (finish_email e (clock (cs_ticks st)) (get_state_row (cs_db st) (email_id e))
           priority actionable reason summary_line reply_text source (sender_email_of e)
           promoted status draft_id error_text st2)"
      using eid ns c Inr t m pa
      by (cases promoted; cases "codex = None"; cases reprocess)
         (simp_all add: process_email_def Let_def after_promotion_def)
    with ok have "st' = finish_email e (clock (cs_ticks st)) (get_state_row (cs_db st) (email_id e))
           priority actionable reason summary_line reply_text source (sender_email_of e)
           promoted status draft_id error_text st2" by simp
    then show ?thesis using c Inr t m pa that by blast
  qed
qed


lemma upsert_state_row_frame:
  "vip_senders (upsert_state_row conn payload) = vip_senders conn \<and>
   draft_blocked_senders (upsert_state_row conn payload) = draft_blocked_senders conn \<and>
   triage_runs (upsert_state_row conn payload) = triage_runs conn"
  by (simp add: upsert_state_row_def)

lemma finish_email_vips:
  "vip_senders (cs_db (finish_email e now existing priority actionable reason summary_line
       reply_text source sender_email promoted status draft_id error_text st)) =
   vip_senders (cs_db st)"
  by (simp add: finish_email_def Let_def upsert_state_row_frame)

lemma finish_email_entries:
  "summary_emails (cs_summary (finish_email e now existing priority actionable reason summary_line
       reply_text source sender_email promoted status draft_id error_text st)) =
   summary_emails (cs_summary st) @
     [\<lparr>entry_email_id = email_id e, entry_priority = priority,
       entry_actionable = Some actionable, entry_status = status, entry_draft_id = draft_id,
       entry_reason = reason, entry_source = Some source,
       entry_sender_email = Some sender_email, entry_auto_promoted_vip = Some promoted\<rparr>]"
  by (simp add: finish_email_def Let_def)

lemma finish_email_counters:
  "triaged_count (cs_summary (finish_email e now existing priority actionable reason summary_line
       reply_text source sender_email promoted status draft_id error_text st)) =
     (if status \<noteq> ''error'' then triaged_count (cs_summary st) + 1 else triaged_count (cs_summary st)) \<and>
   skipped_count (cs_summary (finish_email e now existing priority actionable reason summary_line
       reply_text source sender_email promoted status draft_id error_text st)) = skipped_count (cs_summary st) \<and>
   archived_count (cs_summary (finish_email e now existing priority actionable reason summary_line
       reply_text source sender_email promoted status draft_id error_text st)) = archived_count (cs_summary st) \<and>
   drafted_count (cs_summary (finish_email e now existing priority actionable reason summary_line
       reply_text source sender_email promoted status draft_id error_text st)) = drafted_count (cs_summary st) \<and>
   error_count (cs_summary (finish_email e now existing priority actionable reason summary_line
       reply_text source sender_email promoted status draft_id error_text st)) = error_count (cs_summary st) \<and>
   emails_seen (cs_summary (finish_email e now existing priority actionable reason summary_line
       reply_text source sender_email promoted status draft_id error_text st)) = emails_seen (cs_summary st)"
  by (simp add: finish_email_def Let_def)

lemma perform_action_db:
  assumes "perform_action client cfg auto apply_mode reprocess blocked e existing_draft_id
             priority actionable reply_text sender_email st = (status, draft_id, error_text, st2)"
  shows "cs_db st2 = cs_db st \<and> summary_emails (cs_summary st2) = summary_emails (cs_summary st)"
  using assms
  by (cases rule: perform_action_cases[of client cfg auto apply_mode reprocess blocked e
        existing_draft_id priority actionable reply_text sender_email st]) auto

lemma upsert_vip_row_has_row:
  "\<exists>row \<in> set (upsert_vip_row rows new).
     vip_email row = vip_email new \<and> vip_source row = vip_source new \<and> vip_note row = vip_note new"
proof (cases "\<exists>row \<in> set rows. vip_email row = vip_email new")
  case True
  then obtain r where "r \<in> set rows" "vip_email r = vip_email new" by blast
  then show ?thesis
    unfolding upsert_vip_row_def using True
    by (auto intro!: bexI[where x="r\<lparr>vip_added_at := vip_added_at new, vip_source := vip_source new,
                                vip_note := vip_note new\<rparr>"] simp: image_iff intro: rev_bexI)
next
  case False
  then show ?thesis by (simp add: upsert_vip_row_def)
qed

text \<open>
  C3, as amended. For a message that the cycle processes (it has an id and is not
  skipped), the emitted entry and the VIP table obey the promotion rule: when the
  threshold is at least one, the priority just computed is \<open>high\<close>, the stored priority
  was not \<open>high\<close>, the sender's stored high-priority rows plus one reach the threshold,
  the normalised sender address contains \<open>@\<close> and the sender is not yet in the VIP set,
  then a VIP row for the normalised sender with source \<open>auto_frequency\<close> and the note
  is written and the entry has \<open>auto_promoted_vip\<close> true; otherwise the VIP table is
  unchanged and the entry has \<open>auto_promoted_vip\<close> false.
\<close>

theorem process_email_auto_promotion:
  assumes "email_id e \<noteq> []"
      and "existing_draft_id_of (get_state_row (cs_db st) (email_id e)) = None \<or> reprocess"
      and "process_email client cfg auto codex apply_mode reprocess vips blocked clock e st = Inr st'"
  shows "\<exists>entry. summary_emails (cs_summary st') = summary_emails (cs_summary st) @ [entry] \<and>
     (if spec_promotes (cs_db st) cfg (sender_email_of e)
           (map_option st_priority (get_state_row (cs_db st) (email_id e))) (entry_priority entry)
      then entry_auto_promoted_vip entry = Some True \<and>
           vip_senders (cs_db st') =
             upsert_vip_row (vip_senders (cs_db st))
               (promoted_vip_row (cs_db st) (sender_email_of e) (clock (cs_ticks st + 1))) \<and>
           (\<exists>row \<in> set (vip_senders (cs_db st')).
              vip_email row = normalize_vip_address (sender_email_of e) \<and>
              vip_source row = ''auto_frequency'' \<and>
              vip_note row = Some (''auto-promoted after '' @
                nat_digits (count_high_priority_emails_for_sender (cs_db st)
                              (normalize_vip_address (sender_email_of e)) + 1) @
                '' high-priority emails''))
      else entry_auto_promoted_vip entry = Some False \<and>
           vip_senders (cs_db st') = vip_senders (cs_db st))"
proof -
  from assms obtain rp ra rr rs priority actionable reason summary_line reply_text source conn
      promoted status draft_id error_text st2
    where m: "maybe_auto_promote_vip_from_high_frequency (cs_db st) cfg (sender_email_of e)
           (map_option st_priority (get_state_row (cs_db st) (email_id e))) priority
           (clock (cs_ticks st + 1)) = (conn, promoted)"
      and pa: "perform_action client cfg auto apply_mode reprocess blocked e
           (existing_draft_id_of (get_state_row (cs_db st) (email_id e)))
           priority actionable reply_text (sender_email_of e)
           (after_promotion codex e conn promoted st) = (status, draft_id, error_text, st2)"
      and st': "st' = finish_email e (clock (cs_ticks st)) (get_state_row (cs_db st) (email_id e))
           priority actionable reason summary_line reply_text source (sender_email_of e)
           promoted status draft_id error_text st2"
    by (rule process_email_processed)
  let ?entry = "\<lparr>entry_email_id = email_id e, entry_priority = priority,
       entry_actionable = Some actionable, entry_status = status, entry_draft_id = draft_id,
       entry_reason = reason, entry_source = Some source,
       entry_sender_email = Some (sender_email_of e), entry_auto_promoted_vip = Some promoted\<rparr>"
  have db2: "cs_db st2 = conn" and es2: "summary_emails (cs_summary st2) = summary_emails (cs_summary st)"
    using perform_action_db[OF pa] by (simp_all add: after_promotion_def)
  have entries: "summary_emails (cs_summary st') = summary_emails (cs_summary st) @ [?entry]"
    unfolding st' finish_email_entries es2 by simp
  have vips': "vip_senders (cs_db st') = vip_senders conn"
    unfolding st' finish_email_vips db2 by simp
  let ?P = "spec_promotes (cs_db st) cfg (sender_email_of e)
           (map_option st_priority (get_state_row (cs_db st) (email_id e))) priority"
  let ?row = "promoted_vip_row (cs_db st) (sender_email_of e) (clock (cs_ticks st + 1))"
  have cp: "(conn, promoted) =
      (if ?P then ((cs_db st)\<lparr>vip_senders := upsert_vip_row (vip_senders (cs_db st)) ?row\<rparr>, True)
       else (cs_db st, False))"
    using m unfolding maybe_auto_promote_eq by simp
  show ?thesis
  proof (cases ?P)
    case True
    then have c: "conn = (cs_db st)\<lparr>vip_senders := upsert_vip_row (vip_senders (cs_db st)) ?row\<rparr>"
      and p: "promoted = True" using cp by simp_all
    have v: "vip_senders (cs_db st') = upsert_vip_row (vip_senders (cs_db st)) ?row"
      using vips' c by simp
    have "\<exists>row \<in> set (vip_senders (cs_db st')).
            vip_email row = vip_email ?row \<and> vip_source row = vip_source ?row \<and>
            vip_note row = vip_note ?row"
      unfolding v by (rule upsert_vip_row_has_row)
    then have r: "\<exists>row \<in> set (vip_senders (cs_db st')).
              vip_email row = normalize_vip_address (sender_email_of e) \<and>
              vip_source row = ''auto_frequency'' \<and>
              vip_note row = Some (''auto-promoted after '' @
                nat_digits (count_high_priority_emails_for_sender (cs_db st)
                              (normalize_vip_address (sender_email_of e)) + 1) @
                '' high-priority emails'')"
      by (simp add: promoted_vip_row_def)
    show ?thesis
      apply (rule exI[where x="?entry"])
      using entries True p v r by simp
  next
    case False
    then have c: "conn = cs_db st" and p: "promoted = False" using cp by simp_all
    show ?thesis
      apply (rule exI[where x="?entry"])
      using entries False p vips' c by simp
  qed
qed

text \<open>
  The theorem on the third high-priority message of a sender with two stored ones, at
  threshold three.
\<close>

theorem process_email_auto_promotion_witness:
  "email_id (example_email ''m3'' ''Alice@Example.org'' ''me@example.com'' ''Hello'') \<noteq> [] \<and>
   existing_draft_id_of (get_state_row (example_db []) ''m3'') = None \<and>
   (\<exists>st' entry.
      process_email example_client example_config example_automation None False False {} {}
        example_clock (example_email ''m3'' ''Alice@Example.org'' ''me@example.com'' ''Hello'')
        (example_state (example_db [])) = Inr st' \<and>
      summary_emails (cs_summary st') = [entry] \<and>
      entry_priority entry = ''high'' \<and>
      entry_auto_promoted_vip entry = Some True \<and>
      vip_senders (cs_db st') =
        [\<lparr>vip_email = ''alice@example.org'', vip_added_at = ''2024-05-01T10:00:02Z'',
          vip_source = ''auto_frequency'',
          vip_note = Some ''auto-promoted after 3 high-priority emails''\<rparr>])"
proof -
  let ?e = "example_email ''m3'' ''Alice@Example.org'' ''me@example.com'' ''Hello''"
  let ?st = "example_state (example_db [])"
  let ?run = "process_email example_client example_config example_automation None False False {} {}
        example_clock ?e ?st"
  have eid: "email_id ?e \<noteq> []" by code_simp
  have id3: "email_id ?e = ''m3''" by code_simp
  have db: "cs_db ?st = example_db []" and es: "summary_emails (cs_summary ?st) = []"
    and tk: "cs_ticks ?st = 1"
    by (simp_all add: example_state_def)
  have nd: "existing_draft_id_of (get_state_row (example_db []) ''m3'') = None" by code_simp
  have ns: "existing_draft_id_of (get_state_row (cs_db ?st) (email_id ?e)) = None \<or> False"
    unfolding db id3 using nd by simp
  have v: "map_sum error_message (\<lambda>s. map entry_priority (summary_emails (cs_summary s))) ?run
           = Inr [''high'']"
    by code_simp
  obtain st' where ok: "?run = Inr st'"
    and pr: "map entry_priority (summary_emails (cs_summary st')) = [''high'']"
  proof (cases ?run)
    case (Inl a)
    with v show ?thesis by simp
  next
    case (Inr b)
    with v that show ?thesis by simp
  qed
  have sp: "spec_promotes (example_db []) example_config (sender_email_of ?e)
              (map_option st_priority (get_state_row (example_db []) ''m3'')) ''high''"
    by code_simp
  have row: "upsert_vip_row (vip_senders (example_db []))
               (promoted_vip_row (example_db []) (sender_email_of ?e) (example_clock (1 + 1)))
             = [\<lparr>vip_email = ''alice@example.org'', vip_added_at = ''2024-05-01T10:00:02Z'',
                 vip_source = ''auto_frequency'',
                 vip_note = Some ''auto-promoted after 3 high-priority emails''\<rparr>]"
    by code_simp
  note th = process_email_auto_promotion[OF eid ns ok, unfolded db es tk id3 append_Nil]
  from th obtain entry where en: "summary_emails (cs_summary st') = [entry]"
    and rule: "if spec_promotes (example_db []) example_config (sender_email_of ?e)
           (map_option st_priority (get_state_row (example_db []) ''m3'')) (entry_priority entry)
      then entry_auto_promoted_vip entry = Some True \<and>
           vip_senders (cs_db st') =
             upsert_vip_row (vip_senders (example_db []))
               (promoted_vip_row (example_db []) (sender_email_of ?e) (example_clock (1 + 1))) \<and>
           (\<exists>row \<in> set (vip_senders (cs_db st')).
              vip_email row = normalize_vip_address (sender_email_of ?e) \<and>
              vip_source row = ''auto_frequency'' \<and>
              vip_note row = Some (''auto-promoted after '' @
                nat_digits (count_high_priority_emails_for_sender (example_db [])
                              (normalize_vip_address (sender_email_of ?e)) + 1) @
                '' high-priority emails''))
      else entry_auto_promoted_vip entry = Some False \<and>
           vip_senders (cs_db st') = vip_senders (example_db [])"
    by (elim exE conjE)
  have hp: "entry_priority entry = ''high''" using pr en by simp
  from rule have r2: "entry_auto_promoted_vip entry = Some True"
    and r3: "vip_senders (cs_db st') =
          [\<lparr>vip_email = ''alice@example.org'', vip_added_at = ''2024-05-01T10:00:02Z'',
            vip_source = ''auto_frequency'',
            vip_note = Some ''auto-promoted after 3 high-priority emails''\<rparr>]"
    unfolding hp if_P[OF sp] row by blast+
  show ?thesis
    apply (intro conjI exI[of _ st'] exI[of _ entry])
    by (fact eid nd ok en hp r2 r3)+
qed

text \<open>
  C3 as stated fails. Alice is already a VIP (added by hand), the threshold is three, she
  has two stored high-priority rows and the new message is classified \<open>high\<close> with no
  stored priority: the cycle writes no VIP row (her row keeps the source \<open>manual\<close>) and
  the entry has \<open>auto_promoted_vip\<close> false.
\<close>

theorem auto_promotion_skips_existing_vip:
  "triage_vip_frequency_threshold example_config = Some 3 \<and>
   count_high_priority_emails_for_sender (example_db [example_manual_vip]) ''alice@example.org'' = 2 \<and>
   get_state_row (example_db [example_manual_vip]) ''m3'' = None \<and>
   map_sum error_message
     (\<lambda>s. (map entry_priority (summary_emails (cs_summary s)),
           map entry_auto_promoted_vip (summary_emails (cs_summary s)),
           vip_senders (cs_db s)))
     (process_email example_client example_config example_automation None False False
        (get_vip_senders (example_db [example_manual_vip])) {} example_clock
        (example_email ''m3'' ''alice@example.org'' ''me@example.com'' ''Hello'')
        (example_state (example_db [example_manual_vip])))
   = Inr ([''high''], [Some False],
          [\<lparr>vip_email = ''alice@example.org'', vip_added_at = ''2024-01-01T00:00:00Z'',
            vip_source = ''manual'', vip_note = None\<rparr>])"
  by code_simp


subsection \<open>Messages that already have a draft (C5)\<close>

text \<open>
  C5. For a message whose stored row has a non-empty draft id, the loop body with
  reprocess off returns normally and: makes no call to the rule classifier, the
  assistant, or the mail store's archive and draft operations (the call trace is
  unchanged, and the outcome is the same whatever the mail store, the assistant, the
  configuration and the sender sets are); changes only \<open>last_seen_at\<close> and \<open>updated_at\<close>
  of the rows with that id and leaves the other tables alone; appends exactly one entry,
  with status \<open>skipped\<close> and the stored draft id; and increments \<open>skipped_count\<close> and
  no other counter.
\<close>

theorem process_email_skips_drafted:
  assumes "email_id e \<noteq> []"
      and "get_state_row (cs_db st) (email_id e) = Some row"
      and "st_draft_id row = Some d"
      and "d \<noteq> []"
  shows "\<exists>st' entry.
     process_email client cfg auto codex apply_mode False vips blocked clock e st = Inr st' \<and>
     cs_trace st' = cs_trace st \<and>
     triage_state (cs_db st') =
       map (\<lambda>r. if st_email_id r = email_id e
                 then r\<lparr>st_last_seen_at := clock (cs_ticks st), st_updated_at := clock (cs_ticks st)\<rparr>
                 else r) (triage_state (cs_db st)) \<and>
     vip_senders (cs_db st') = vip_senders (cs_db st) \<and>
     draft_blocked_senders (cs_db st') = draft_blocked_senders (cs_db st) \<and>
     triage_runs (cs_db st') = triage_runs (cs_db st) \<and>
     summary_emails (cs_summary st') = summary_emails (cs_summary st) @ [entry] \<and>
     entry_email_id entry = email_id e \<and>
     entry_status entry = ''skipped'' \<and>
     entry_draft_id entry = Some d \<and>
     skipped_count (cs_summary st') = skipped_count (cs_summary st) + 1 \<and>
     triaged_count (cs_summary st') = triaged_count (cs_summary st) \<and>
     archived_count (cs_summary st') = archived_count (cs_summary st) \<and>
     drafted_count (cs_summary st') = drafted_count (cs_summary st) \<and>
     error_count (cs_summary st') = error_count (cs_summary st) \<and>
     process_email client2 cfg2 auto2 codex2 apply_mode2 False vips2 blocked2 clock e st = Inr st'"
proof -
  have ex: "existing_draft_id_of (get_state_row (cs_db st) (email_id e)) \<noteq> None"
    using assms by (simp add: existing_draft_id_of_def)
  let ?st' = "skip_drafted (email_id e) (clock (cs_ticks st))
                (get_state_row (cs_db st) (email_id e)) (st\<lparr>cs_ticks := cs_ticks st + 1\<rparr>)"
  have a: "process_email client cfg auto codex apply_mode False vips blocked clock e st = Inr ?st'"
    by (rule process_email_skip[OF assms(1) ex]) simp
  have b: "process_email client2 cfg2 auto2 codex2 apply_mode2 False vips2 blocked2 clock e st = Inr ?st'"
    by (rule process_email_skip[OF assms(1) ex]) simp
  show ?thesis
    apply (rule exI[where x="?st'"])
    apply (rule exI[where x="last (summary_emails (cs_summary ?st'))"])
    using a b assms(2,3)
    by (simp add: skip_drafted_def touch_state_row_def)
qed

text \<open>The theorem on Bob's message \<open>m0\<close>, whose stored row has the draft \<open>d-42\<close>.\<close>

theorem process_email_skips_drafted_witness:
  "email_id (example_email ''m0'' ''bob@example.org'' ''me@example.com'' ''Again'') \<noteq> [] \<and>
   get_state_row (cs_db (example_state (example_db [])))
     (email_id (example_email ''m0'' ''bob@example.org'' ''me@example.com'' ''Again''))
     = Some (example_row ''m0'' ''bob@example.org'' ''high'' (Some ''d-42'')) \<and>
   st_draft_id (example_row ''m0'' ''bob@example.org'' ''high'' (Some ''d-42'')) = Some ''d-42'' \<and>
   ''d-42'' \<noteq> [] \<and>
   (\<exists>st' entry.
      process_email example_client example_config example_automation None True False {} {}
        example_clock (example_email ''m0'' ''bob@example.org'' ''me@example.com'' ''Again'')
        (example_state (example_db [])) = Inr st' \<and>
      cs_trace st' = [] \<and>
      summary_emails (cs_summary st') = [entry] \<and>
      entry_status entry = ''skipped'' \<and>
      entry_draft_id entry = Some ''d-42'' \<and>
      skipped_count (cs_summary st') = 1 \<and>
      triaged_count (cs_summary st') = 0 \<and>
      vip_senders (cs_db st') = [])"
proof -
  let ?e = "example_email ''m0'' ''bob@example.org'' ''me@example.com'' ''Again''"
  let ?st = "example_state (example_db [])"
  let ?row = "example_row ''m0'' ''bob@example.org'' ''high'' (Some ''d-42'')"
  have eid: "email_id ?e \<noteq> []" by code_simp
  have row: "get_state_row (cs_db ?st) (email_id ?e) = Some ?row" by code_simp
  have did: "st_draft_id ?row = Some ''d-42''" by (simp add: example_row_def)
  have ne: "''d-42'' \<noteq> []" by simp
  have tr: "cs_trace ?st = []" and es: "summary_emails (cs_summary ?st) = []"
    and sk: "skipped_count (cs_summary ?st) = 0" and tc: "triaged_count (cs_summary ?st) = 0"
    and vs: "vip_senders (cs_db ?st) = []"
    by (simp_all add: example_state_def example_db_def)
  note th = process_email_skips_drafted[OF eid row did ne,
      of example_client example_config example_automation None True "{}" "{}" example_clock
         example_client example_config example_automation None True "{}" "{}",
      unfolded tr es sk tc vs append_Nil]
  from th obtain st' entry where
    a: "process_email example_client example_config example_automation None True False {} {}
          example_clock ?e ?st = Inr st'"
    and b: "cs_trace st' = []"
    and c: "summary_emails (cs_summary st') = [entry]"
    and d: "entry_status entry = ''skipped''"
    and f: "entry_draft_id entry = Some ''d-42''"
    and g: "skipped_count (cs_summary st') = 0 + 1"
    and h: "triaged_count (cs_summary st') = 0"
    and i: "vip_senders (cs_db st') = []"
    by blast
  have g': "skipped_count (cs_summary st') = 1" using g by simp
  show ?thesis
    apply (intro conjI exI[of _ st'] exI[of _ entry])
    by (fact eid row did ne a b c d f g' h i)+
qed

subsection \<open>Cycle counters (C6)\<close>

lemma count_status_snoc:
  "summary_emails s' = summary_emails s @ [entry] \<Longrightarrow>
   count_status x s' = count_status x s + (if entry_status entry = x then 1 else 0)"
  by (simp add: count_status_def)

lemma count_status_same:
  "summary_emails s' = summary_emails s \<Longrightarrow> count_status x s' = count_status x s"
  by (simp add: count_status_def)

lemma process_email_step:
  assumes inv: "counters_exclusive k (cs_summary st)"
      and ok: "process_email client cfg auto codex apply_mode reprocess vips blocked clock e st = Inr st'"
  shows "counters_exclusive (k + missing_id e) (cs_summary st') \<and>
         counters_total (cs_summary st') = counters_total (cs_summary st) + 1 \<and>
         emails_seen (cs_summary st') = emails_seen (cs_summary st)"
proof (cases "email_id e = []")
  case True
  then have "st' = st\<lparr>cs_summary := (cs_summary st)\<lparr>error_count := error_count (cs_summary st) + 1\<rparr>\<rparr>"
    using ok by (simp add: process_email_no_id)
  then show ?thesis
    using inv True
    by (simp add: counters_exclusive_def counters_total_def missing_id_def count_status_def)
next
  case eid: False
  show ?thesis
  proof (cases "existing_draft_id_of (get_state_row (cs_db st) (email_id e)) \<noteq> None \<and> \<not> reprocess")
    case True
    then have "st' = skip_drafted (email_id e) (clock (cs_ticks st))
                (get_state_row (cs_db st) (email_id e)) (st\<lparr>cs_ticks := cs_ticks st + 1\<rparr>)"
      using ok eid by (simp add: process_email_skip)
    then show ?thesis
      using inv eid
      by (simp add: counters_exclusive_def counters_total_def missing_id_def count_status_def
            skip_drafted_def)
  next
    case False
    then have ns: "existing_draft_id_of (get_state_row (cs_db st) (email_id e)) = None \<or> reprocess"
      by auto
    from eid ns ok obtain rp ra rr rs priority actionable reason summary_line reply_text source conn
      promoted status draft_id error_text st2
      where pa: "perform_action client cfg auto apply_mode reprocess blocked e
           (existing_draft_id_of (get_state_row (cs_db st) (email_id e)))
           priority actionable reply_text (sender_email_of e)
           (after_promotion codex e conn promoted st) = (status, draft_id, error_text, st2)"
      and st': "st' = finish_email e (clock (cs_ticks st)) (get_state_row (cs_db st) (email_id e))
           priority actionable reason summary_line reply_text source (sender_email_of e)
           promoted status draft_id error_text st2"
      by (rule process_email_processed)
    let ?mid = "after_promotion codex e conn promoted st"
    have mid: "cs_summary ?mid = cs_summary st" by (simp add: after_promotion_def)
    have fin: "summary_emails (cs_summary st') = summary_emails (cs_summary st2) @
        [\<lparr>entry_email_id = email_id e, entry_priority = priority,
          entry_actionable = Some actionable, entry_status = status, entry_draft_id = draft_id,
          entry_reason = reason, entry_source = Some source,
          entry_sender_email = Some (sender_email_of e), entry_auto_promoted_vip = Some promoted\<rparr>]"
      unfolding st' by (rule finish_email_entries)
    note cnt = finish_email_counters[of e "clock (cs_ticks st)" "get_state_row (cs_db st) (email_id e)"
        priority actionable reason summary_line reply_text source "sender_email_of e"
        promoted status draft_id error_text st2, folded st']
    show ?thesis
    proof (cases rule: perform_action_cases[where client=client and cfg=cfg and auto=auto
        and apply_mode=apply_mode and reprocess=reprocess and blocked=blocked and e=e
        and existing_draft_id="existing_draft_id_of (get_state_row (cs_db st) (email_id e))"
        and priority=priority and actionable=actionable and reply_text=reply_text
        and sender_email="sender_email_of e" and st="?mid"])
      case archived
      with pa have s: "status = ''archived''"
        and st2: "st2 = ?mid\<lparr>cs_trace := cs_trace ?mid @ [ArchiveCall (email_id e)],
           cs_summary := (cs_summary ?mid)\<lparr>archived_count := archived_count (cs_summary ?mid) + 1\<rparr>\<rparr>"
        by simp_all
      show ?thesis
        using inv eid cnt fin unfolding st2 mid s
        by (simp add: counters_exclusive_def counters_total_def missing_id_def count_status_def)
    next
      case (drafted new_id)
      with pa have s: "status = ''drafted''"
        and st2: "st2 = ?mid\<lparr>cs_trace := cs_trace ?mid @ [DraftCall (email_id e)],
           cs_summary := (cs_summary ?mid)\<lparr>drafted_count := drafted_count (cs_summary ?mid) + 1\<rparr>\<rparr>"
        by simp_all
      show ?thesis
        using inv eid cnt fin unfolding st2 mid s
        by (simp add: counters_exclusive_def counters_total_def missing_id_def count_status_def)
    next
      case (failed d msg ev)
      with pa have s: "status = ''error''"
        and st2: "st2 = ?mid\<lparr>cs_trace := cs_trace ?mid @ [ev],
           cs_summary := (cs_summary ?mid)\<lparr>error_count := error_count (cs_summary ?mid) + 1\<rparr>\<rparr>"
        by simp_all
      show ?thesis
        using inv eid cnt fin unfolding st2 mid s
        by (simp add: counters_exclusive_def counters_total_def missing_id_def count_status_def)
    next
      case triaged
      with pa have s: "status = ''triaged''" and st2: "st2 = ?mid" by simp_all
      show ?thesis
        using inv eid cnt fin unfolding st2 mid s
        by (simp add: counters_exclusive_def counters_total_def missing_id_def count_status_def)
    qed
  qed
qed

lemma process_emails_counters:
  assumes "counters_exclusive k (cs_summary st)"
      and "process_emails client cfg auto codex apply_mode reprocess vips blocked clock es st = Inr st'"
  shows "counters_exclusive (k + sum_list (map missing_id es)) (cs_summary st') \<and>
         counters_total (cs_summary st') = counters_total (cs_summary st) + length es \<and>
         emails_seen (cs_summary st') = emails_seen (cs_summary st)"
  using assms
proof (induction es arbitrary: st k)
  case Nil
  then show ?case by simp
next
  case (Cons e es)
  from Cons.prems(2) obtain st1 where
    s1: "process_email client cfg auto codex apply_mode reprocess vips blocked clock e st = Inr st1"
    and rest: "process_emails client cfg auto codex apply_mode reprocess vips blocked clock es st1 = Inr st'"
    by (auto split: sum.splits)
  note a = process_email_step[OF Cons.prems(1) s1]
  from a have i1: "counters_exclusive (k + missing_id e) (cs_summary st1)" by simp
  note b = Cons.IH[OF i1 rest]
  show ?case using a b by (simp add: add.assoc)
qed

text \<open>
  C6. In the summary of every completed cycle,
  \<open>triaged_count + skipped_count + error_count \<le> emails_seen\<close> and
  \<open>archived_count + drafted_count \<le> triaged_count\<close>, and the counters are mutually
  exclusive per message: each counts the entries of its own status, so a message with
  status \<open>error\<close> is not counted as triaged and a skipped message is not counted as
  triaged, archived or drafted.
\<close>

theorem process_one_cycle_counters:
  assumes "process_one_cycle client cfg auto state_conn apply_mode reprocess codex emails clock = Inr st'"
  shows "triaged_count (cs_summary st') + skipped_count (cs_summary st') + error_count (cs_summary st')
           \<le> emails_seen (cs_summary st') \<and>
         archived_count (cs_summary st') + drafted_count (cs_summary st')
           \<le> triaged_count (cs_summary st') \<and>
         counters_exclusive (length (filter (\<lambda>e. email_id e = []) emails)) (cs_summary st')"
proof -
  let ?s0 = "\<lparr>summary_run_at = clock 0, summary_apply_mode = apply_mode,
                     emails_seen = length emails, triaged_count = 0, archived_count = 0,
                     drafted_count = 0, skipped_count = 0, error_count = 0,
                     summary_emails = []\<rparr>"
  let ?st0 = "\<lparr>cs_db = state_conn, cs_summary = ?s0, cs_trace = [], cs_ticks = 1\<rparr>"
  from assms obtain st1 where
    loop: "process_emails client cfg auto codex apply_mode reprocess (get_vip_senders state_conn)
             (get_draft_blocked_senders state_conn) clock emails ?st0 = Inr st1"
    and st': "st' = st1\<lparr>cs_db := record_run (cs_db st1) (cs_summary st1) apply_mode\<rparr>"
    by (auto simp: process_one_cycle_def Let_def split: sum.splits)
  have i0: "counters_exclusive 0 (cs_summary ?st0)"
    by (simp add: counters_exclusive_def count_status_def)
  note r = process_emails_counters[OF i0 loop]
  have m: "sum_list (map missing_id emails) = length (filter (\<lambda>e. email_id e = []) emails)"
    by (induction emails) (simp_all add: missing_id_def)
  have ex: "counters_exclusive (length (filter (\<lambda>e. email_id e = []) emails)) (cs_summary st1)"
    using r m by simp
  have tot: "counters_total (cs_summary st1) = emails_seen (cs_summary st1)"
    using r by (simp add: counters_total_def)
  have "archived_count (cs_summary st1) + drafted_count (cs_summary st1) \<le> triaged_count (cs_summary st1)"
    using ex by (simp add: counters_exclusive_def)
  then show ?thesis
    using ex tot unfolding st' by (simp add: counters_total_def)
qed

text \<open>
  The theorem on a cycle in apply mode over five messages: one already drafted, one
  without id, one that gets a draft, and two that are archived.
\<close>

theorem process_one_cycle_counters_witness:
  "\<exists>st'. process_one_cycle example_client example_config example_automation (example_db [])
       True False None
       [example_email ''m0'' ''bob@example.org'' ''me@example.com'' ''Again'',
        example_email [] ''x@example.org'' ''me@example.com'' ''No id'',
        example_email ''m3'' ''alice@example.org'' ''me@example.com'' ''Can you review the budget?'',
        example_email ''m4'' ''news@example.org'' ''list@example.org'' ''Weekly newsletter'',
        example_email ''m5'' ''carol@example.org'' ''team@example.org'' ''Lunch'']
       example_clock = Inr st' \<and>
     emails_seen (cs_summary st') = 5 \<and>
     triaged_count (cs_summary st') = 3 \<and>
     archived_count (cs_summary st') = 2 \<and>
     drafted_count (cs_summary st') = 1 \<and>
     skipped_count (cs_summary st') = 1 \<and>
     error_count (cs_summary st') = 1 \<and>
     triaged_count (cs_summary st') + skipped_count (cs_summary st') + error_count (cs_summary st')
       \<le> emails_seen (cs_summary st') \<and>
     archived_count (cs_summary st') + drafted_count (cs_summary st') \<le> triaged_count (cs_summary st') \<and>
     counters_exclusive 1 (cs_summary st')"
proof -
  let ?emails = "[example_email ''m0'' ''bob@example.org'' ''me@example.com'' ''Again'',
        example_email [] ''x@example.org'' ''me@example.com'' ''No id'',
        example_email ''m3'' ''alice@example.org'' ''me@example.com'' ''Can you review the budget?'',
        example_email ''m4'' ''news@example.org'' ''list@example.org'' ''Weekly newsletter'',
        example_email ''m5'' ''carol@example.org'' ''team@example.org'' ''Lunch'']"
  let ?run = "process_one_cycle example_client example_config example_automation (example_db [])
       True False None ?emails example_clock"
  have v: "map_sum error_message
             (\<lambda>s. (emails_seen (cs_summary s), triaged_count (cs_summary s),
                   archived_count (cs_summary s), drafted_count (cs_summary s),
                   skipped_count (cs_summary s), error_count (cs_summary s))) ?run
           = Inr (5, 3, 2, 1, 1, 1)"
    by code_simp
  obtain st' where ok: "?run = Inr st'"
    and c: "emails_seen (cs_summary st') = 5" "triaged_count (cs_summary st') = 3"
           "archived_count (cs_summary st') = 2" "drafted_count (cs_summary st') = 1"
           "skipped_count (cs_summary st') = 1" "error_count (cs_summary st') = 1"
  proof (cases ?run)
    case (Inl a)
    with v show ?thesis by simp
  next
    case (Inr b)
    with v that show ?thesis by simp
  qed
  have k: "length (filter (\<lambda>e. email_id e = []) ?emails) = 1" by code_simp
  note th = process_one_cycle_counters[OF ok, unfolded k]
  show ?thesis
    apply (rule exI[of _ st'])
    using ok c th by simp
qed

end
